theory Spec2Isabelle
  imports Main
begin

text \<open>
  A model of \<open>skills/gemini-image-gen/scripts/generate.py\<close>: the credential resolver
  (\<open>find_api_key\<close>, \<open>load_env_file\<close>), the image request executor
  (\<open>generate_image\<close>) and the command line (\<open>main\<close>). The environment, the
  credential files, the service, the clock and the filesystem are inputs of the model;
  what the script prints and does to the outside is a list of events.
\<close>

section \<open>Python strings\<close>

text \<open>
  A Python \<open>str\<close> is a sequence of Unicode code points, modelled as a list of
  naturals. Literals of the script are written \<open>lit ''...''\<close>.
\<close>

type_synonym pystr = "nat list"

definition lit :: "string \<Rightarrow> pystr" where
  "lit s = map of_char s"

definition dquote :: nat where
  "dquote = 34"

definition squote :: nat where
  "squote = 39"

definition equals_sign :: nat where
  "equals_sign = 61"

text \<open>The code points for which \<open>str.isspace\<close> holds; \<open>str.strip()\<close> removes them.\<close>

definition isspace :: "nat \<Rightarrow> bool" where
  "isspace c \<longleftrightarrow>
     (9 \<le> c \<and> c \<le> 13) \<or> (28 \<le> c \<and> c \<le> 32) \<or> c = 133 \<or> c = 160 \<or> c = 5760 \<or>
     (8192 \<le> c \<and> c \<le> 8202) \<or> c = 8232 \<or> c = 8233 \<or> c = 8239 \<or> c = 8287 \<or> c = 12288"

text \<open>\<open>s.strip(chars)\<close>: drop the characters of the set from both ends.\<close>

definition strip_chars :: "(nat \<Rightarrow> bool) \<Rightarrow> pystr \<Rightarrow> pystr" where
  "strip_chars P s = rev (dropWhile P (rev (dropWhile P s)))"

definition strip :: "pystr \<Rightarrow> pystr" where
  "strip s = strip_chars isspace s"

definition startswith :: "pystr \<Rightarrow> pystr \<Rightarrow> bool" where
  "startswith s p \<longleftrightarrow> take (length p) s = p"

text \<open>\<open>s.split(sep, 1)\<close> for a one-character separator: one or two pieces.\<close>

definition split1 :: "nat \<Rightarrow> pystr \<Rightarrow> pystr list" where
  "split1 sep s =
     (if sep \<in> set s
      then [takeWhile (\<lambda>c. c \<noteq> sep) s, tl (dropWhile (\<lambda>c. c \<noteq> sep) s)]
      else [s])"

text \<open>Truthiness of an optional string: \<open>None\<close> and the empty string are false.\<close>

fun truthy :: "pystr option \<Rightarrow> bool" where
  "truthy None = False"
| "truthy (Some s) = (s \<noteq> [])"

section \<open>Exceptions\<close>

text \<open>
  The exceptions that the library calls of the script raise. \<open>OtherError\<close> with its
  message stands for any other exception of a \<open>stat\<close>, of an \<open>open\<close>, of a read or
  of the client.
\<close>

datatype exn =
    IndexError
  | AttributeError
  | TypeError
  | FileNotFoundError
  | FileExistsError
  | IsADirectoryError
  | NotADirectoryError
  | PermissionError
  | OtherError pystr

text \<open>\<open>xs[i]\<close> for a non-negative index.\<close>

definition index :: "'a list \<Rightarrow> nat \<Rightarrow> exn + 'a" where
  "index xs i = (if i < length xs then Inr (xs ! i) else Inl IndexError)"

section \<open>Paths\<close>

text \<open>
  A \<open>pathlib\<close> path: whether it is anchored at the root, and its components.
  \<open>Path(s)\<close> splits the string at \<open>/\<close> and drops empty and \<open>.\<close> components; a
  \<open>..\<close> component stays. \<open>Path.parent\<close> drops the last component and leaves a path
  with no component as it is; \<open>p / name\<close> appends a component.
\<close>

record path =
  absolute :: bool
  names :: "pystr list"

definition dotdot :: pystr where
  "dotdot = [46, 46]"

fun split_slash :: "pystr \<Rightarrow> pystr \<Rightarrow> pystr list" where
  "split_slash acc [] = [rev acc]"
| "split_slash acc (c # cs) =
     (if c = 47 then rev acc # split_slash [] cs else split_slash (c # acc) cs)"

definition Path :: "pystr \<Rightarrow> path" where
  "Path s =
     \<lparr>absolute = (case s of [] \<Rightarrow> False | c # _ \<Rightarrow> c = 47),
      names = filter (\<lambda>c. c \<noteq> [] \<and> c \<noteq> [46]) (split_slash [] s)\<rparr>"

definition parent :: "path \<Rightarrow> path" where
  "parent p = p\<lparr>names := butlast (names p)\<rparr>"

definition joinpath :: "path \<Rightarrow> pystr \<Rightarrow> path" where
  "joinpath p name = p\<lparr>names := names p @ [name]\<rparr>"

section \<open>Observable events\<close>

text \<open>
  Each \<open>print\<close> of the script is a message; the glyphs and layout are left out. The
  other events are the calls that reach the outside, with the path as the script
  passes it, and the traceback of an exception that nothing catches.
\<close>

datatype modality = IMAGE | TEXT

datatype msg =
    Searching
  | FoundGoogleEnv
  | FoundGeminiEnv
  | FoundSkillDir path
  | FoundProjectDir path
  | WarningReading path exn
  | KeyNotFound
  | PleaseSetKey
  | GuideGoogleEnv
  | GuideGeminiEnv
  | GuideSkillDir
  | GuideProjectRoot
  | GetKeyAt
  | Generating
  | ShowModel pystr
  | ShowPrompt pystr
  | ShowModalities "modality list"
  | NoCandidates
  | ImageSaved path
  | GeneratedTextHeader
  | TextLine pystr
  | NoImages
  | Success nat
  | ErrorGenerating exn

record request =
  req_model :: pystr
  req_contents :: pystr
  response_modalities :: "modality list"

type_synonym bytes = "nat list"

datatype event =
    Print msg
  | CallService pystr request
  | ReadClock
  | MkdirParents path
  | OpenWrite path
  | WriteBytes path bytes
  | Traceback exn

section \<open>Credential resolver\<close>

text \<open>
  What iterating over an opened text file yields: lines, until the end of the file or
  until a read raises. A candidate file is missing, or cannot be examined (\<open>stat\<close>
  raises an error that \<open>Path.exists\<close> passes on), or cannot be opened, or opens.
\<close>

datatype reader = EOF | Line pystr reader | ReadFails exn

datatype env_file = Missing | StatFails exn | OpenFails exn | Opens reader

definition GOOGLE_API_KEY :: pystr where
  "GOOGLE_API_KEY = lit ''GOOGLE_API_KEY''"

definition GEMINI_API_KEY :: pystr where
  "GEMINI_API_KEY = lit ''GEMINI_API_KEY''"

text \<open>\<open>line.startswith(('GOOGLE_API_KEY=', 'GEMINI_API_KEY='))\<close>.\<close>

definition recognized :: "pystr \<Rightarrow> bool" where
  "recognized line \<longleftrightarrow>
     startswith line (GOOGLE_API_KEY @ [equals_sign]) \<or>
     startswith line (GEMINI_API_KEY @ [equals_sign])"

text \<open>The body of the \<open>if line.startswith(...)\<close> branch: the value of a matching line.\<close>

definition line_key :: "pystr \<Rightarrow> exn + pystr option" where
  "line_key line =
     (case index (split1 equals_sign line) 1 of
        Inl e \<Rightarrow> Inl e
      | Inr v \<Rightarrow>
          (let key = strip v;
               key = strip_chars (\<lambda>c. c = squote) (strip_chars (\<lambda>c. c = dquote) key)
           in Inr (if key \<noteq> [] then Some key else None)))"

text \<open>The \<open>for line in f\<close> loop inside the \<open>try\<close>.\<close>

fun scan_lines :: "reader \<Rightarrow> exn + pystr option" where
  "scan_lines EOF = Inr None"
| "scan_lines (ReadFails e) = Inl e"
| "scan_lines (Line raw rest) =
     (let line = strip raw in
      if recognized line
      then line_key line
      else scan_lines rest)"

text \<open>
  The body of the \<open>try\<close> in \<open>load_env_file\<close>: opening the file, then the loop and the
  \<open>return None\<close> after it. The \<open>except\<close> clause turns an exception into a warning.
\<close>

definition try_body :: "env_file \<Rightarrow> exn + pystr option" where
  "try_body f =
     (case f of
        Missing \<Rightarrow> Inl FileNotFoundError
      | StatFails e \<Rightarrow> Inl e
      | OpenFails e \<Rightarrow> Inl e
      | Opens r \<Rightarrow> scan_lines r)"

definition load_env_file :: "(path \<Rightarrow> env_file) \<Rightarrow> path \<Rightarrow> pystr option \<times> event list" where
  "load_env_file files env_path =
     (case try_body (files env_path) of
        Inl e \<Rightarrow> (None, [Print (WarningReading env_path e)])
      | Inr k \<Rightarrow> (k, []))"

text \<open>
  \<open>Path.exists\<close> answers \<open>False\<close> for a missing file and passes on every other error
  of \<open>stat\<close>: in \<open>pathlib\<close> up to Python 3.13 these are all errors but \<open>ENOENT\<close>,
  \<open>ENOTDIR\<close>, \<open>EBADF\<close> and \<open>ELOOP\<close>, for instance the \<open>PermissionError\<close> of a
  directory that may not be searched. The two file locations are
  \<open>Path(__file__).parent.parent / '.env'\<close> and the same three directories further up.
\<close>

definition exists :: "(path \<Rightarrow> env_file) \<Rightarrow> path \<Rightarrow> exn + bool" where
  "exists files p =
     (case files p of
        Missing \<Rightarrow> Inr False
      | StatFails e \<Rightarrow> Inl e
      | OpenFails e \<Rightarrow> Inr True
      | Opens r \<Rightarrow> Inr True)"

definition skill_env :: "path \<Rightarrow> path" where
  "skill_env script_file = joinpath (parent (parent script_file)) (lit ''.env'')"

definition project_env :: "path \<Rightarrow> path" where
  "project_env script_file =
     joinpath (parent (parent (parent (parent (parent script_file))))) (lit ''.env'')"

text \<open>
  The block that steps 3 and 4 of \<open>find_api_key\<close> share (lines 59 to 61 and 68 to
  70): \<open>if env.exists(): api_key = load_env_file(env); if api_key: ...\<close>. It raises
  what \<open>exists\<close> raises, and yields the key when the \<open>return\<close> is reached.
\<close>

definition consult ::
  "(path \<Rightarrow> env_file) \<Rightarrow> path \<Rightarrow> (exn + pystr option) \<times> event list" where
  "consult files env_path =
     (case exists files env_path of
        Inl e \<Rightarrow> (Inl e, [])
      | Inr False \<Rightarrow> (Inr None, [])
      | Inr True \<Rightarrow>
          (case load_env_file files env_path of
             (api_key, out) \<Rightarrow> (Inr (if truthy api_key then api_key else None), out)))"

text \<open>
  \<open>find_api_key\<close> raises or returns an optional key, and prints. No \<open>try\<close> stands
  around its calls of \<open>exists\<close>.
\<close>

definition find_api_key ::
  "(pystr \<rightharpoonup> pystr) \<Rightarrow> (path \<Rightarrow> env_file) \<Rightarrow> path
     \<Rightarrow> (exn + pystr option) \<times> event list" where
  "find_api_key environ files script_file =
     (if truthy (environ GOOGLE_API_KEY)
      then (Inr (environ GOOGLE_API_KEY), [Print FoundGoogleEnv])
      else if truthy (environ GEMINI_API_KEY)
      then (Inr (environ GEMINI_API_KEY), [Print FoundGeminiEnv])
      else
        (case consult files (skill_env script_file) of
           (Inl e, out) \<Rightarrow> (Inl e, out)
         | (Inr (Some key), out) \<Rightarrow>
             (Inr (Some key), out @ [Print (FoundSkillDir (skill_env script_file))])
         | (Inr None, out) \<Rightarrow>
             (case consult files (project_env script_file) of
                (Inl e, out') \<Rightarrow> (Inl e, out @ out')
              | (Inr (Some key), out') \<Rightarrow>
                  (Inr (Some key),
                   out @ out' @ [Print (FoundProjectDir (project_env script_file))])
              | (Inr None, out') \<Rightarrow> (Inr None, out @ out'))))"

section \<open>The world of the request executor\<close>

text \<open>
  The filesystem maps a location, the list of names from the root, to a file with its
  content or to a directory; the root is always a directory. The process has a working
  directory. The clock is the sequence of readings that successive calls of
  \<open>datetime.now()\<close> return.
\<close>

type_synonym location = "pystr list"

datatype node = File bytes | Dir

record datetime =
  year :: nat
  month :: nat
  day :: nat
  hour :: nat
  minute :: nat
  second :: nat

record world =
  fs :: "location \<rightharpoonup> node"
  cwd :: location
  clock :: "nat \<Rightarrow> datetime"
  ticks :: nat

definition node_at :: "(location \<rightharpoonup> node) \<Rightarrow> location \<Rightarrow> node option" where
  "node_at f l = (if l = [] then Some Dir else f l)"

text \<open>
  A step of the executor runs in a world and either raises or returns a value; it leaves
  a new world and the events it produced, also when it raises.
\<close>

type_synonym 'a run = "world \<Rightarrow> (exn + 'a) \<times> world \<times> event list"

definition ret :: "'a \<Rightarrow> 'a run" where
  "ret a w = (Inr a, w, [])"

definition raise :: "exn \<Rightarrow> 'a run" where
  "raise e w = (Inl e, w, [])"

definition emit :: "event \<Rightarrow> unit run" where
  "emit ev w = (Inr (), w, [ev])"

definition bind_run :: "'a run \<Rightarrow> ('a \<Rightarrow> 'b run) \<Rightarrow> 'b run" where
  "bind_run m f w =
     (case m w of
        (Inl e, w', es) \<Rightarrow> (Inl e, w', es)
      | (Inr a, w', es) \<Rightarrow> (case f a w' of (r, w'', es') \<Rightarrow> (r, w'', es @ es')))"

subsection \<open>Filesystem operations\<close>

text \<open>
  The system resolves a path name by name: each name is looked up in a directory, and
  \<open>..\<close> leads to the directory above. The last name need not exist.
\<close>

fun walk :: "(location \<rightharpoonup> node) \<Rightarrow> location \<Rightarrow> pystr list \<Rightarrow> exn + location" where
  "walk f l [] = Inr l"
| "walk f l (c # cs) =
     (case node_at f l of
        None \<Rightarrow> Inl FileNotFoundError
      | Some (File _) \<Rightarrow> Inl NotADirectoryError
      | Some Dir \<Rightarrow> walk f (if c = dotdot then butlast l else l @ [c]) cs)"

definition locate :: "(location \<rightharpoonup> node) \<Rightarrow> location \<Rightarrow> path \<Rightarrow> exn + location" where
  "locate f cw p = walk f (if absolute p then [] else cw) (names p)"

definition is_dir :: "(location \<rightharpoonup> node) \<Rightarrow> location \<Rightarrow> path \<Rightarrow> bool" where
  "is_dir f cw p =
     (case locate f cw p of Inl e \<Rightarrow> False | Inr l \<Rightarrow> node_at f l = Some Dir)"

text \<open>
  \<open>os.mkdir(p)\<close>: the directory is made where nothing stands; what exists, and a path
  that ends in \<open>..\<close> or has no name, is \<open>FileExistsError\<close>.
\<close>

definition os_mkdir ::
  "(location \<rightharpoonup> node) \<Rightarrow> location \<Rightarrow> path \<Rightarrow> exn + (location \<rightharpoonup> node)" where
  "os_mkdir f cw p =
     (case locate f cw p of
        Inl e \<Rightarrow> Inl e
      | Inr l \<Rightarrow>
          if names p = [] \<or> last (names p) = dotdot then Inl FileExistsError
          else (case node_at f l of
                  Some nd \<Rightarrow> Inl FileExistsError
                | None \<Rightarrow> Inr (f(l \<mapsto> Dir))))"

text \<open>
  \<open>p.mkdir(parents=False, exist_ok=True)\<close> and \<open>p.mkdir(parents=True, exist_ok=True)\<close>
  as \<open>pathlib\<close> defines them: on \<open>FileNotFoundError\<close> the parent is made first and
  the directory then; any other error is passed over when the path is a directory. The
  result is the exception, if any, and the filesystem as it is left.
\<close>

definition mkdir_once ::
  "(location \<rightharpoonup> node) \<Rightarrow> location \<Rightarrow> path \<Rightarrow> exn option \<times> (location \<rightharpoonup> node)" where
  "mkdir_once f cw p =
     (case os_mkdir f cw p of
        Inr f' \<Rightarrow> (None, f')
      | Inl e \<Rightarrow>
          if e = FileNotFoundError then (Some e, f)
          else if is_dir f cw p then (None, f) else (Some e, f))"

function mkdir_fs ::
  "(location \<rightharpoonup> node) \<Rightarrow> location \<Rightarrow> path \<Rightarrow> exn option \<times> (location \<rightharpoonup> node)" where
  "mkdir_fs f cw p =
     (case os_mkdir f cw p of
        Inr f' \<Rightarrow> (None, f')
      | Inl e \<Rightarrow>
          if e = FileNotFoundError
          then (if names p = [] then (Some e, f)
                else (case mkdir_fs f cw (parent p) of
                        (Some e', f1) \<Rightarrow> (Some e', f1)
                      | (None, f1) \<Rightarrow> mkdir_once f1 cw p))
          else if is_dir f cw p then (None, f) else (Some e, f))"
  by pat_completeness auto
termination
  by (relation "measure (\<lambda>(f, cw, p). length (names p))") (auto simp: parent_def)

declare mkdir_fs.simps [simp del]

definition mkdir_parents :: "path \<Rightarrow> unit run" where
  "mkdir_parents p =
     bind_run (emit (MkdirParents p)) (\<lambda>_ w.
       case mkdir_fs (fs w) (cwd w) p of
         (Some e, f') \<Rightarrow> (Inl e, w\<lparr>fs := f'\<rparr>, [])
       | (None, f') \<Rightarrow> (Inr (), w\<lparr>fs := f'\<rparr>, []))"

text \<open>
  \<open>open(p, 'wb')\<close> creates the file or truncates it, and yields the open file: the
  location that later writes go to.
\<close>

definition open_wb :: "path \<Rightarrow> location run" where
  "open_wb p =
     bind_run (emit (OpenWrite p)) (\<lambda>_ w.
       case locate (fs w) (cwd w) p of
         Inl e \<Rightarrow> (Inl e, w, [])
       | Inr l \<Rightarrow>
           if node_at (fs w) l = Some Dir then (Inl IsADirectoryError, w, [])
           else (Inr l, w\<lparr>fs := (fs w)(l \<mapsto> File [])\<rparr>, []))"

text \<open>\<open>f.write(data)\<close> on the file just opened; \<open>None\<close> is not bytes.\<close>

definition write_data :: "path \<Rightarrow> location \<Rightarrow> bytes option \<Rightarrow> unit run" where
  "write_data p l d =
     (case d of
        None \<Rightarrow> raise TypeError
      | Some b \<Rightarrow>
          bind_run (emit (WriteBytes p b)) (\<lambda>_ w.
            (Inr (), w\<lparr>fs := (fs w)(l \<mapsto> File b)\<rparr>, [])))"

subsection \<open>Time stamps and default names\<close>

definition now :: "datetime run" where
  "now w = (Inr (clock w (ticks w)), w\<lparr>ticks := Suc (ticks w)\<rparr>, [ReadClock])"

text \<open>\<open>str(n)\<close> for a natural number.\<close>

function str_nat :: "nat \<Rightarrow> pystr" where
  "str_nat n = (if n < 10 then [48 + n] else str_nat (n div 10) @ [48 + n mod 10])"
  by pat_completeness auto
termination
  by (relation "measure id") auto

declare str_nat.simps [simp del]

definition zfill :: "nat \<Rightarrow> pystr \<Rightarrow> pystr" where
  "zfill k s = replicate (k - length s) 48 @ s"

text \<open>\<open>strftime('%Y%m%d-%H%M%S')\<close>, each field padded with zeros to its width.\<close>

definition strftime :: "datetime \<Rightarrow> pystr" where
  "strftime t =
     zfill 4 (str_nat (year t)) @ zfill 2 (str_nat (month t)) @ zfill 2 (str_nat (day t)) @
     [45] @
     zfill 2 (str_nat (hour t)) @ zfill 2 (str_nat (minute t)) @ zfill 2 (str_nat (second t))"

text \<open>\<open>Path('./docs/assets')\<close> and the name of the f-string.\<close>

definition assets_dir :: path where
  "assets_dir = \<lparr>absolute = False, names = [lit ''docs'', lit ''assets'']\<rparr>"

definition default_name :: "pystr \<Rightarrow> nat \<Rightarrow> pystr" where
  "default_name timestamp i = lit ''gemini-'' @ timestamp @ [45] @ str_nat i @ lit ''.png''"

section \<open>Image request executor\<close>

text \<open>
  The response of the client library. Every field is optional there, so a missing
  content, part list or payload is a value of the model.
\<close>

record Blob =
  data :: "bytes option"

record Part =
  inline_data :: "Blob option"
  part_text :: "pystr option"

record Content =
  parts :: "Part list option"

record Candidate =
  content :: "Content option"

record Response =
  candidates :: "Candidate list option"

text \<open>
  The external service: building the client for a key and sending one request either
  raises or returns a response.
\<close>

type_synonym service = "pystr \<Rightarrow> request \<Rightarrow> exn + Response"

definition generate_content :: "service \<Rightarrow> pystr \<Rightarrow> request \<Rightarrow> Response run" where
  "generate_content service api_key req w =
     (service api_key req, w, [CallService api_key req])"

text \<open>The destination of an image part, lines 161 to 168.\<close>

definition save_path_for :: "pystr option \<Rightarrow> nat \<Rightarrow> path run" where
  "save_path_for output_path i =
     (if truthy output_path
      then (case output_path of Some s \<Rightarrow> ret (Path s) | None \<Rightarrow> raise TypeError)
      else bind_run now (\<lambda>t.
           bind_run (mkdir_parents assets_dir) (\<lambda>_.
           ret (joinpath assets_dir (default_name (strftime t) i)))))"

text \<open>One round of the loop over the parts: the counter goes in and comes out.\<close>

definition save_part :: "pystr option \<Rightarrow> nat \<Rightarrow> Part \<Rightarrow> nat \<Rightarrow> nat run" where
  "save_part output_path i part image_count =
     (case inline_data part of
        None \<Rightarrow> ret image_count
      | Some blob \<Rightarrow>
          (let image_count = image_count + 1 in
           bind_run (save_path_for output_path i) (\<lambda>save_path.
           bind_run (mkdir_parents (parent save_path)) (\<lambda>_.
           bind_run (open_wb save_path) (\<lambda>f.
           bind_run (write_data save_path f (data blob)) (\<lambda>_.
           bind_run (emit (Print (ImageSaved save_path))) (\<lambda>_.
           ret image_count)))))))"

fun save_images :: "pystr option \<Rightarrow> nat \<Rightarrow> Part list \<Rightarrow> nat \<Rightarrow> nat run" where
  "save_images output_path i [] image_count = ret image_count"
| "save_images output_path i (part # rest) image_count =
     bind_run (save_part output_path i part image_count)
       (\<lambda>c. save_images output_path (Suc i) rest c)"

definition text_parts :: "Part list \<Rightarrow> pystr list" where
  "text_parts ps =
     List.map_filter (\<lambda>p. if truthy (part_text p) then part_text p else None) ps"

definition print_text :: "bool \<Rightarrow> Part list \<Rightarrow> unit run" where
  "print_text include_text ps w =
     (if include_text \<and> text_parts ps \<noteq> []
      then (Inr (), w, Print GeneratedTextHeader # map (\<lambda>t. Print (TextLine t)) (text_parts ps))
      else (Inr (), w, []))"

text \<open>Processing the response, lines 148 to 190.\<close>

definition process_response :: "bool \<Rightarrow> pystr option \<Rightarrow> Response \<Rightarrow> bool run" where
  "process_response include_text output_path response =
     (case candidates response of
        None \<Rightarrow> bind_run (emit (Print NoCandidates)) (\<lambda>_. ret False)
      | Some [] \<Rightarrow> bind_run (emit (Print NoCandidates)) (\<lambda>_. ret False)
      | Some (candidate # _) \<Rightarrow>
          (case content candidate of
             None \<Rightarrow> raise AttributeError
           | Some c \<Rightarrow>
               (case parts c of
                  None \<Rightarrow> raise TypeError
                | Some ps \<Rightarrow>
                    bind_run (save_images output_path 0 ps 0) (\<lambda>image_count.
                    bind_run (print_text include_text ps) (\<lambda>_.
                    if image_count = 0
                    then bind_run (emit (Print NoImages)) (\<lambda>_. ret False)
                    else bind_run (emit (Print (Success image_count))) (\<lambda>_. ret True))))))"

text \<open>The body of the \<open>try\<close>, lines 133 to 190.\<close>

definition try_generate ::
  "service \<Rightarrow> pystr \<Rightarrow> pystr \<Rightarrow> bool \<Rightarrow> pystr option \<Rightarrow> pystr \<Rightarrow> modality list \<Rightarrow> bool run" where
  "try_generate service prompt api_key include_text output_path model modalities =
     bind_run (generate_content service api_key
                 \<lparr>req_model = model, req_contents = prompt, response_modalities = modalities\<rparr>)
       (process_response include_text output_path)"

text \<open>
  \<open>generate_image\<close>: the lines printed before the \<open>try\<close>, its body, and the
  \<open>except\<close> clause, which prints the error and returns \<open>False\<close>.
\<close>

definition generate_image ::
  "service \<Rightarrow> pystr \<Rightarrow> pystr \<Rightarrow> bool \<Rightarrow> pystr option \<Rightarrow> pystr \<Rightarrow> world
     \<Rightarrow> bool \<times> world \<times> event list" where
  "generate_image service prompt api_key include_text output_path model w =
     (let modalities = [IMAGE] @ (if include_text then [TEXT] else []);
          banner = [Print Generating, Print (ShowModel model), Print (ShowPrompt prompt),
                    Print (ShowModalities modalities)]
      in case try_generate service prompt api_key include_text output_path model modalities w of
           (Inr ok, w', es) \<Rightarrow> (ok, w', banner @ es)
         | (Inl e, w', es) \<Rightarrow> (False, w', banner @ es @ [Print (ErrorGenerating e)]))"

section \<open>Command line\<close>

record args =
  arg_prompt :: pystr
  arg_include_text :: bool
  arg_output :: "pystr option"
  arg_model :: pystr

definition guidance :: "event list" where
  "guidance =
     [Print KeyNotFound, Print PleaseSetKey, Print GuideGoogleEnv, Print GuideGeminiEnv,
      Print GuideSkillDir, Print GuideProjectRoot, Print GetKeyAt]"

text \<open>
  \<open>main\<close> after argument parsing; the first component is the exit code. An exception
  that leaves \<open>find_api_key\<close> is caught nowhere: the interpreter prints the traceback
  and ends with status 1.
\<close>

definition main ::
  "service \<Rightarrow> (pystr \<rightharpoonup> pystr) \<Rightarrow> (path \<Rightarrow> env_file) \<Rightarrow> path \<Rightarrow> args \<Rightarrow> world
     \<Rightarrow> nat \<times> world \<times> event list" where
  "main service environ files script_file a w =
     (case find_api_key environ files script_file of
        (Inl e, out) \<Rightarrow> (1, w, [Print Searching] @ out @ [Traceback e])
      | (Inr api_key, out) \<Rightarrow>
          if \<not> truthy api_key
          then (1, w, [Print Searching] @ out @ guidance)
          else (case api_key of
                  None \<Rightarrow> (1, w, [Print Searching] @ out @ guidance)
                | Some k \<Rightarrow>
                    (case generate_image service (arg_prompt a) k (arg_include_text a)
                            (arg_output a) (arg_model a) w of
                       (success, w', es) \<Rightarrow>
                         ((if success then 0 else 1), w', [Print Searching] @ out @ es))))"

section \<open>Notions used in the statements\<close>

subsection \<open>Lines of a credential file\<close>

text \<open>The remainder of a line after its first \<open>=\<close>.\<close>

definition remainder_after_equals :: "pystr \<Rightarrow> pystr" where
  "remainder_after_equals line = tl (dropWhile (\<lambda>c. c \<noteq> equals_sign) line)"

text \<open>
  What the script makes of a matching line: the remainder without surrounding
  whitespace, then without any double quotes at its ends, then without any single
  quotes at its ends.
\<close>

definition key_value :: "pystr \<Rightarrow> pystr" where
  "key_value line =
     strip_chars (\<lambda>c. c = squote) (strip_chars (\<lambda>c. c = dquote)
       (strip (remainder_after_equals line)))"

definition is_quote :: "nat \<Rightarrow> bool" where
  "is_quote c \<longleftrightarrow> c = dquote \<or> c = squote"

text \<open>
  The value as the specification words it: exactly one layer of enclosing single or
  double quotes is removed.
\<close>

definition strip_one_quote_layer :: "pystr \<Rightarrow> pystr" where
  "strip_one_quote_layer s =
     (if 2 \<le> length s \<and> hd s = last s \<and> is_quote (hd s) then butlast (tl s) else s)"

definition spec_value :: "pystr \<Rightarrow> pystr" where
  "spec_value line = strip_one_quote_layer (strip (remainder_after_equals line))"

text \<open>A string with no quote character at either end.\<close>

definition bare :: "pystr \<Rightarrow> bool" where
  "bare s \<longleftrightarrow> s = [] \<or> (\<not> is_quote (hd s) \<and> \<not> is_quote (last s))"

text \<open>A file that starts with the given lines.\<close>

fun lines_then :: "pystr list \<Rightarrow> reader \<Rightarrow> reader" where
  "lines_then [] r = r"
| "lines_then (l # ls) r = Line l (lines_then ls r)"

text \<open>The first non-empty value of a list of optional values.\<close>

fun first_non_empty :: "pystr option list \<Rightarrow> pystr option" where
  "first_non_empty [] = None"
| "first_non_empty (x # xs) = (if truthy x then x else first_non_empty xs)"

subsection \<open>Events, requests and responses\<close>

text \<open>
  Kinds of events: a request to the service, a line of generated text, an operation on
  the filesystem.
\<close>

fun is_call :: "event \<Rightarrow> bool" where
  "is_call (CallService k r) = True"
| "is_call e = False"

fun is_text_output :: "event \<Rightarrow> bool" where
  "is_text_output (Print GeneratedTextHeader) = True"
| "is_text_output (Print (TextLine t)) = True"
| "is_text_output e = False"

fun is_fs_change :: "event \<Rightarrow> bool" where
  "is_fs_change (MkdirParents p) = True"
| "is_fs_change (OpenWrite p) = True"
| "is_fs_change (WriteBytes p b) = True"
| "is_fs_change e = False"

text \<open>
  The request that \<open>generate_image\<close> sends, and the four lines it prints before.
\<close>

definition the_request :: "pystr \<Rightarrow> pystr \<Rightarrow> bool \<Rightarrow> request" where
  "the_request model prompt include_text =
     \<lparr>req_model = model, req_contents = prompt,
      response_modalities = [IMAGE] @ (if include_text then [TEXT] else [])\<rparr>"

definition banner :: "pystr \<Rightarrow> pystr \<Rightarrow> bool \<Rightarrow> event list" where
  "banner model prompt include_text =
     [Print Generating, Print (ShowModel model), Print (ShowPrompt prompt),
      Print (ShowModalities ([IMAGE] @ (if include_text then [TEXT] else [])))]"

text \<open>
  The number of parts that carry image data.
\<close>

definition image_count :: "Part list \<Rightarrow> nat" where
  "image_count ps = length (filter (\<lambda>p. inline_data p \<noteq> None) ps)"

text \<open>
  What the script prints of the text parts after the loop.
\<close>

definition text_output :: "bool \<Rightarrow> Part list \<Rightarrow> event list" where
  "text_output include_text ps =
     (if include_text \<and> text_parts ps \<noteq> []
      then Print GeneratedTextHeader # map (\<lambda>t. Print (TextLine t)) (text_parts ps)
      else [])"

text \<open>
  Every event of a step satisfies a predicate.
\<close>

definition emits_only :: "(event \<Rightarrow> bool) \<Rightarrow> 'a run \<Rightarrow> bool" where
  "emits_only P m \<longleftrightarrow> (\<forall>w. list_all P (snd (snd (m w))))"

text \<open>
  A part and a response with the text of every part removed. Two responses that have
  the same parts at the same positions, up to the text they carry, agree after it.
\<close>

definition erase_text :: "Part \<Rightarrow> Part" where
  "erase_text p = p\<lparr>part_text := None\<rparr>"

definition without_text :: "Response \<Rightarrow> Response" where
  "without_text r =
     r\<lparr>candidates :=
         map_option (map (\<lambda>c. c\<lparr>content :=
           map_option (\<lambda>k. k\<lparr>parts := map_option (map erase_text) (parts k)\<rparr>) (content c)\<rparr>))
           (candidates r)\<rparr>"

text \<open>
  The payloads of the image parts, in order; and a part that carries no image or an
  image with a payload.
\<close>

definition payloads :: "Part list \<Rightarrow> bytes list" where
  "payloads ps =
     concat (map (\<lambda>p. case inline_data p of
                          None \<Rightarrow> []
                        | Some b \<Rightarrow> (case data b of None \<Rightarrow> [] | Some d \<Rightarrow> [d])) ps)"


text \<open>
  The events of saving one image: to an explicit path, and to a default path.
\<close>

definition save_events :: "path \<Rightarrow> bytes \<Rightarrow> event list" where
  "save_events p d = [MkdirParents (parent p), OpenWrite p, WriteBytes p d, Print (ImageSaved p)]"




text \<open>
  The image parts of a list of parts: the blobs in order, and the blobs with the
  position of their part among all parts, counted from \<open>i\<close>. The loop over the parts
  is a loop over the positioned blobs.
\<close>

definition blobs :: "Part list \<Rightarrow> Blob list" where
  "blobs ps = List.map_filter inline_data ps"

fun indexed_blobs :: "nat \<Rightarrow> Part list \<Rightarrow> (nat \<times> Blob) list" where
  "indexed_blobs i [] = []"
| "indexed_blobs i (p # ps) =
     (case inline_data p of
        None \<Rightarrow> indexed_blobs (Suc i) ps
      | Some b \<Rightarrow> (i, b) # indexed_blobs (Suc i) ps)"

definition blob_part :: "Blob \<Rightarrow> Part" where
  "blob_part b = \<lparr>inline_data = Some b, part_text = None\<rparr>"

fun save_indexed :: "pystr option \<Rightarrow> (nat \<times> Blob) list \<Rightarrow> nat \<Rightarrow> nat run" where
  "save_indexed output_path [] n = ret n"
| "save_indexed output_path (ib # rest) n =
     bind_run (save_part output_path (fst ib) (blob_part (snd ib)) n)
       (\<lambda>c. save_indexed output_path rest c)"

text \<open>
  The parts of the first candidate, \<open>response.candidates[0].content.parts\<close>, where the
  response has them; and the payloads that a list of events writes, in order.
\<close>

definition first_parts :: "Response \<Rightarrow> Part list option" where
  "first_parts r =
     (case candidates r of
        None \<Rightarrow> None
      | Some [] \<Rightarrow> None
      | Some (candidate # _) \<Rightarrow>
          (case content candidate of None \<Rightarrow> None | Some c \<Rightarrow> parts c))"

definition written :: "event list \<Rightarrow> bytes list" where
  "written es = concat (map (\<lambda>e. case e of WriteBytes p b \<Rightarrow> [b] | _ \<Rightarrow> []) es)"


section \<open>Example inputs\<close>

text \<open>The line \<open>GOOGLE_API_KEY="abc123"\<close>, and a line with two layers of quotes.\<close>

definition example_line :: pystr where
  "example_line = lit ''GOOGLE_API_KEY='' @ [dquote] @ lit ''abc123'' @ [dquote]"

definition doubled_line :: pystr where
  "doubled_line = lit ''GOOGLE_API_KEY='' @ [dquote, dquote] @ lit ''abc'' @ [dquote, dquote]"

text \<open>
  The script in its skill directory, five levels below the project root, with the two
  candidate files, and some states of these files.
\<close>

definition example_script :: path where
  "example_script =
     \<lparr>absolute = True,
      names = [lit ''proj'', lit ''.claude'', lit ''skills'', lit ''gemini-image-gen'',
               lit ''scripts'', lit ''generate.py'']\<rparr>"

definition skill_file :: path where
  "skill_file =
     \<lparr>absolute = True,
      names = [lit ''proj'', lit ''.claude'', lit ''skills'', lit ''gemini-image-gen'',
               lit ''.env'']\<rparr>"

definition project_file :: path where
  "project_file = \<lparr>absolute = True, names = [lit ''proj'', lit ''.env'']\<rparr>"

definition both_set :: "pystr \<rightharpoonup> pystr" where
  "both_set = [GOOGLE_API_KEY \<mapsto> lit ''primary'', GEMINI_API_KEY \<mapsto> lit ''alternate'']"

definition denied_then_key :: "path \<Rightarrow> env_file" where
  "denied_then_key p =
     (if p = skill_file then OpenFails (OtherError (lit ''denied''))
      else if p = project_file then Opens (Line example_line EOF)
      else Missing)"

definition empty_then_real :: "path \<Rightarrow> env_file" where
  "empty_then_real p =
     (if p = skill_file
      then Opens (lines_then [lit ''# keys'']
                   (Line (lit ''GOOGLE_API_KEY='' @ [dquote, dquote])
                     (Line (lit ''GEMINI_API_KEY=real'') EOF)))
      else if p = project_file then Opens (Line example_line EOF)
      else Missing)"

text \<open>
  The skill directory's file cannot be examined and the project root's file holds a key;
  and no file in the skill directory, with a project root that cannot be examined.
\<close>

definition hidden_skill_file :: "path \<Rightarrow> env_file" where
  "hidden_skill_file p =
     (if p = skill_file then StatFails PermissionError
      else if p = project_file then Opens (Line example_line EOF)
      else Missing)"

definition hidden_project_file :: "path \<Rightarrow> env_file" where
  "hidden_project_file p = (if p = project_file then StatFails PermissionError else Missing)"

text \<open>
  Parts, responses, a service with a fixed answer, and a world whose working directory
  \<open>/work\<close> is empty.
\<close>

definition image_part :: "bytes \<Rightarrow> Part" where
  "image_part b = \<lparr>inline_data = Some \<lparr>data = Some b\<rparr>, part_text = None\<rparr>"

definition text_part :: "pystr \<Rightarrow> Part" where
  "text_part t = \<lparr>inline_data = None, part_text = Some t\<rparr>"

definition one_candidate :: "Part list \<Rightarrow> Response" where
  "one_candidate ps = \<lparr>candidates = Some [\<lparr>content = Some \<lparr>parts = Some ps\<rparr>\<rparr>]\<rparr>"

definition answering :: "Response \<Rightarrow> service" where
  "answering r = (\<lambda>api_key req. Inr r)"

definition noon :: datetime where
  "noon = \<lparr>year = 2024, month = 1, day = 2, hour = 12, minute = 0, second = 0\<rparr>"

definition fresh_world :: world where
  "fresh_world =
     \<lparr>fs = [[lit ''work''] \<mapsto> Dir], cwd = [lit ''work''], clock = (\<lambda>n. noon), ticks = 0\<rparr>"

definition in_assets :: "pystr \<Rightarrow> location" where
  "in_assets name = [lit ''work'', lit ''docs'', lit ''assets'', name]"

definition with_assets :: "location \<rightharpoonup> node" where
  "with_assets =
     [[lit ''work''] \<mapsto> Dir, [lit ''work'', lit ''docs''] \<mapsto> Dir,
      [lit ''work'', lit ''docs'', lit ''assets''] \<mapsto> Dir]"

definition example_args :: args where
  "example_args =
     \<lparr>arg_prompt = lit ''a cat'', arg_include_text = True, arg_output = None,
      arg_model = lit ''gemini-3-pro-image-preview''\<rparr>"


text \<open>A world with a directory \<open>out\<close> in the working directory.\<close>

definition blocked_world :: world where
  "blocked_world =
     fresh_world\<lparr>fs := [[lit ''work''] \<mapsto> Dir, [lit ''work'', lit ''out''] \<mapsto> Dir]\<rparr>"

text \<open>
  A world in which a directory stands where the first default name of index 0 goes.
\<close>

definition occupied_world :: world where
  "occupied_world =
     fresh_world\<lparr>fs := with_assets(in_assets (lit ''gemini-20240102-120000-0.png'') \<mapsto> Dir)\<rparr>"



definition image_only :: "Part list" where
  "image_only = [image_part [7]]"

definition text_then_image :: "Part list" where
  "text_then_image = [text_part (lit ''hi''), image_part [7]]"

section \<open>Properties of the credential resolver\<close>

subsection \<open>Matching lines and their values\<close>

lemma startswith_append: "startswith s p \<Longrightarrow> s = p @ drop (length p) s"
  unfolding startswith_def by (metis append_take_drop_id)

lemma recognized_cases:
  assumes "recognized line"
  obtains name r where "line = name @ equals_sign # r" and "equals_sign \<notin> set name"
proof -
  from assms consider
      "line = (GOOGLE_API_KEY @ [equals_sign]) @ drop (length (GOOGLE_API_KEY @ [equals_sign])) line"
    | "line = (GEMINI_API_KEY @ [equals_sign]) @ drop (length (GEMINI_API_KEY @ [equals_sign])) line"
    unfolding recognized_def using startswith_append by blast
  then show ?thesis
  proof cases
    case 1
    have "equals_sign \<notin> set GOOGLE_API_KEY"
      by (simp add: GOOGLE_API_KEY_def lit_def equals_sign_def)
    with 1 that show ?thesis by simp
  next
    case 2
    have "equals_sign \<notin> set GEMINI_API_KEY"
      by (simp add: GEMINI_API_KEY_def lit_def equals_sign_def)
    with 2 that show ?thesis by simp
  qed
qed

lemma recognized_has_equals: "recognized line \<Longrightarrow> equals_sign \<in> set line"
  by (erule recognized_cases) simp

lemma line_key_recognized:
  "recognized line \<Longrightarrow>
   line_key line = Inr (if key_value line \<noteq> [] then Some (key_value line) else None)"
  by (simp add: line_key_def index_def split1_def recognized_has_equals key_value_def remainder_after_equals_def Let_def)


lemma dropWhile_rev_last:
  "s \<noteq> [] \<Longrightarrow> \<not> P (last s) \<Longrightarrow> dropWhile P (rev s) = rev s"
  by (cases s rule: rev_cases) auto

lemma strip_chars_id:
  "s = [] \<or> (\<not> P (hd s) \<and> \<not> P (last s)) \<Longrightarrow> strip_chars P s = s"
proof (cases s)
  case Nil
  then show ?thesis by (simp add: strip_chars_def)
next
  case (Cons a t)
  assume "s = [] \<or> (\<not> P (hd s) \<and> \<not> P (last s))"
  with Cons have h: "\<not> P a" and l: "\<not> P (last s)" by auto
  from h Cons have 1: "dropWhile P s = s" by simp
  from Cons l have "dropWhile P (rev s) = rev s"
    by (intro dropWhile_rev_last) auto
  with 1 show ?thesis by (simp add: strip_chars_def)
qed

lemma strip_chars_enclosed:
  assumes "P q" and "b = [] \<or> (\<not> P (hd b) \<and> \<not> P (last b))"
  shows "strip_chars P (q # b @ [q]) = b"
proof (cases b)
  case Nil
  with assms show ?thesis by (simp add: strip_chars_def)
next
  case (Cons a t)
  with assms have h: "\<not> P a" and l: "\<not> P (last b)" by auto
  have "dropWhile P (q # b @ [q]) = b @ [q]"
    using assms(1) h Cons by simp
  moreover have "dropWhile P (rev b) = rev b"
    using Cons l by (intro dropWhile_rev_last) auto
  then have "dropWhile P (rev (b @ [q])) = rev b"
    using assms(1) by simp
  ultimately show ?thesis by (simp add: strip_chars_def)
qed

lemma quotes_bare: "bare s \<Longrightarrow>
  strip_chars (\<lambda>c. c = squote) (strip_chars (\<lambda>c. c = dquote) s) = s"
  by (auto simp: bare_def is_quote_def strip_chars_id)

lemma quotes_one_layer:
  assumes "is_quote q" and "bare b"
  shows "strip_chars (\<lambda>c. c = squote) (strip_chars (\<lambda>c. c = dquote) (q # b @ [q])) = b"
proof (cases "q = dquote")
  case True
  have "strip_chars (\<lambda>c. c = dquote) (q # b @ [q]) = b"
    using True assms(2) by (intro strip_chars_enclosed) (auto simp: bare_def is_quote_def)
  moreover have "strip_chars (\<lambda>c. c = squote) b = b"
    using assms(2) by (intro strip_chars_id) (auto simp: bare_def is_quote_def)
  ultimately show ?thesis by simp
next
  case False
  with assms(1) have q: "q = squote" by (simp add: is_quote_def)
  have "strip_chars (\<lambda>c. c = dquote) (q # b @ [q]) = q # b @ [q]"
    using q by (intro strip_chars_id) (simp add: squote_def dquote_def)
  moreover have "strip_chars (\<lambda>c. c = squote) (q # b @ [q]) = b"
    using q assms(2) by (intro strip_chars_enclosed) (auto simp: bare_def is_quote_def)
  ultimately show ?thesis by simp
qed

lemma one_layer_spec: "is_quote q \<Longrightarrow> strip_one_quote_layer (q # b @ [q]) = b"
  by (simp add: strip_one_quote_layer_def butlast_append)

lemma bare_spec: "bare s \<Longrightarrow> strip_one_quote_layer s = s"
  by (auto simp: strip_one_quote_layer_def bare_def)


lemmas eval_strings =
  lit_def dquote_def squote_def equals_sign_def isspace_def strip_chars_def strip_def
  startswith_def GOOGLE_API_KEY_def GEMINI_API_KEY_def recognized_def
  remainder_after_equals_def key_value_def

lemma strip_keeps_prefix:
  assumes "startswith raw (name @ [c])" and "name \<noteq> []" and "\<not> isspace (hd name)"
    and "\<not> isspace c"
  shows "startswith (strip raw) (name @ [c])"
proof -
  obtain r where raw: "raw = name @ c # r"
    using startswith_append [OF assms(1)] by (metis append.assoc append_Cons append_Nil)
  from assms(2) obtain a t where name: "name = a # t" by (cases name) auto
  with assms(3) have "dropWhile isspace raw = raw"
    by (simp add: raw)
  moreover have "dropWhile isspace (rev r @ c # rev name) = dropWhile isspace (rev r) @ c # rev name"
    using assms(4) by (simp add: dropWhile_append)
  ultimately have "strip raw = name @ c # rev (dropWhile isspace (rev r))"
    by (simp add: strip_def strip_chars_def raw)
  then show ?thesis
    by (simp add: startswith_def)
qed

lemma recognized_strip: "recognized raw \<Longrightarrow> recognized (strip raw)"
proof -
  assume "recognized raw"
  then consider "startswith raw (GOOGLE_API_KEY @ [equals_sign])"
    | "startswith raw (GEMINI_API_KEY @ [equals_sign])"
    unfolding recognized_def by blast
  then show ?thesis
  proof cases
    case 1
    then have "startswith (strip raw) (GOOGLE_API_KEY @ [equals_sign])"
      by (rule strip_keeps_prefix)
         (simp_all add: GOOGLE_API_KEY_def lit_def isspace_def equals_sign_def)
    then show ?thesis by (simp add: recognized_def)
  next
    case 2
    then have "startswith (strip raw) (GEMINI_API_KEY @ [equals_sign])"
      by (rule strip_keeps_prefix)
         (simp_all add: GEMINI_API_KEY_def lit_def isspace_def equals_sign_def)
    then show ?thesis by (simp add: recognized_def)
  qed
qed

text \<open>
  C2, in the form that holds of the script: for every line whose whitespace-stripped form
  starts with \<open>GOOGLE_API_KEY=\<close> or \<open>GEMINI_API_KEY=\<close>, the lookup ends at that line,
  and the value is the remainder of the stripped line after the first \<open>=\<close>, without
  surrounding whitespace, then without all double quotes at its ends, then without all
  single quotes at its ends; an empty value is "not found". Where the remainder has no
  quote at its ends, or exactly one layer of quotes around a text with no quote at its
  ends, this is the value with a single layer of quotes removed.
\<close>

theorem key_line_value:
  assumes "recognized (strip raw)"
  shows "scan_lines (Line raw rest) =
           Inr (if key_value (strip raw) = [] then None else Some (key_value (strip raw))) \<and>
         (bare (strip (remainder_after_equals (strip raw))) \<longrightarrow>
            key_value (strip raw) = spec_value (strip raw)) \<and>
         (\<forall>q b. is_quote q \<and> bare b \<and> strip (remainder_after_equals (strip raw)) = q # b @ [q] \<longrightarrow>
            key_value (strip raw) = spec_value (strip raw))"
proof (intro conjI allI impI)
  show "scan_lines (Line raw rest) =
           Inr (if key_value (strip raw) = [] then None else Some (key_value (strip raw)))"
    using assms line_key_recognized [of "strip raw"]
    by (simp add: Let_def)
next
  assume "bare (strip (remainder_after_equals (strip raw)))"
  then show "key_value (strip raw) = spec_value (strip raw)"
    by (simp add: key_value_def spec_value_def quotes_bare bare_spec)
next
  fix q b
  assume "is_quote q \<and> bare b \<and> strip (remainder_after_equals (strip raw)) = q # b @ [q]"
  then show "key_value (strip raw) = spec_value (strip raw)"
    by (simp add: key_value_def spec_value_def quotes_one_layer one_layer_spec)
qed

theorem key_line_value_witness:
  "recognized (strip example_line) \<and>
   scan_lines (Line example_line EOF) = Inr (Some (lit ''abc123''))"
proof -
  have r: "recognized (strip example_line)"
    by (simp add: example_line_def eval_strings)
  have "key_value (strip example_line) = lit ''abc123''"
    by (simp add: example_line_def eval_strings)
  with r key_line_value [OF r, of EOF] show ?thesis
    by (simp add: lit_def)
qed

text \<open>
  The line \<open>GOOGLE_API_KEY=""abc""\<close> yields \<open>abc\<close>: both layers of quotes are removed,
  where the removal of a single layer would leave \<open>"abc"\<close>.
\<close>

theorem single_layer_counterexample:
  "recognized (strip doubled_line) \<and>
   scan_lines (Line doubled_line EOF) = Inr (Some (lit ''abc'')) \<and>
   spec_value (strip doubled_line) = [dquote] @ lit ''abc'' @ [dquote] \<and>
   scan_lines (Line doubled_line EOF) \<noteq> Inr (Some (spec_value (strip doubled_line)))"
  by (simp add: doubled_line_def eval_strings line_key_def split1_def index_def
      spec_value_def strip_one_quote_layer_def is_quote_def)

subsection \<open>Order of the sources\<close>

lemma scan_lines_skip:
  "\<forall>l\<in>set pre. \<not> recognized (strip l) \<Longrightarrow> scan_lines (lines_then pre r) = scan_lines r"
  by (induction pre) (simp_all add: Let_def)

lemma scan_lines_first_match:
  assumes "\<forall>l\<in>set pre. \<not> recognized (strip l)" and "recognized (strip raw)"
  shows "scan_lines (lines_then pre (Line raw rest)) =
           Inr (if key_value (strip raw) = [] then None else Some (key_value (strip raw)))"
  using assms line_key_recognized [of "strip raw"]
  by (simp add: scan_lines_skip Let_def)

lemma load_env_file_found_quiet:
  "truthy (fst (load_env_file files p)) \<Longrightarrow> snd (load_env_file files p) = []"
  by (simp add: load_env_file_def split: sum.splits)

lemma consult_missing: "files p = Missing \<Longrightarrow> consult files p = (Inr None, [])"
  by (simp add: consult_def exists_def)

lemma consult_stat_fails: "files p = StatFails e \<Longrightarrow> consult files p = (Inl e, [])"
  by (simp add: consult_def exists_def)

lemma consult_open_fails:
  "files p = OpenFails e \<Longrightarrow> consult files p = (Inr None, [Print (WarningReading p e)])"
  by (simp add: consult_def exists_def load_env_file_def try_body_def)

lemma consult_opens:
  "files p = Opens r \<Longrightarrow>
   consult files p =
     (case scan_lines r of
        Inl e \<Rightarrow> (Inr None, [Print (WarningReading p e)])
      | Inr k \<Rightarrow> (Inr (if truthy k then k else None), []))"
  by (simp add: consult_def exists_def load_env_file_def try_body_def split: sum.splits)

lemma consult_first_match:
  assumes "\<forall>l\<in>set pre. \<not> recognized (strip l)" and "recognized (strip raw)"
    and "files p = Opens (lines_then pre (Line raw rest))"
  shows "consult files p =
           (Inr (if key_value (strip raw) = [] then None else Some (key_value (strip raw))), [])"
  using scan_lines_first_match [OF assms(1,2), of rest]
  by (simp add: consult_opens [of files p, OF assms(3)])

lemma find_api_key_files:
  assumes "\<not> truthy (environ GOOGLE_API_KEY)" and "\<not> truthy (environ GEMINI_API_KEY)"
    and "consult files (skill_env s) = (Inr None, out)"
  shows "find_api_key environ files s =
           (case consult files (project_env s) of
              (Inl e, out') \<Rightarrow> (Inl e, out @ out')
            | (Inr (Some key), out') \<Rightarrow>
                (Inr (Some key), out @ out' @ [Print (FoundProjectDir (project_env s))])
            | (Inr None, out') \<Rightarrow> (Inr None, out @ out'))"
  using assms by (simp add: find_api_key_def)

lemma example_paths:
  "skill_env example_script = skill_file"
  "project_env example_script = project_file"
  by (simp_all add: skill_env_def project_env_def example_script_def skill_file_def
      project_file_def parent_def joinpath_def)

lemma example_files_differ: "skill_file \<noteq> project_file"
  by (simp add: skill_file_def project_file_def)

lemma example_line_scanned: "scan_lines (Line example_line EOF) = Inr (Some (lit ''abc123''))"
  by (simp add: example_line_def eval_strings line_key_def split1_def index_def)

text \<open>
  Where neither existence check raises, the resolver returns the first non-empty value
  among \<open>GOOGLE_API_KEY\<close> of the environment, \<open>GEMINI_API_KEY\<close> of the environment, the
  skill directory's file and the project root's file.
\<close>

lemma find_api_key_order:
  assumes "\<forall>e. files (skill_env s) \<noteq> StatFails e" and "\<forall>e. files (project_env s) \<noteq> StatFails e"
  shows "fst (find_api_key environ files s) =
           Inr (first_non_empty
                  [environ GOOGLE_API_KEY, environ GEMINI_API_KEY,
                   fst (load_env_file files (skill_env s)),
                   fst (load_env_file files (project_env s))])"
proof -
  have c: "\<And>p. \<forall>e. files p \<noteq> StatFails e \<Longrightarrow>
              fst (consult files p) =
                Inr (if truthy (fst (load_env_file files p)) then fst (load_env_file files p)
                     else None)"
    by (auto simp: consult_def exists_def load_env_file_def try_body_def
        split: env_file.splits sum.splits prod.splits)
  have n: "\<And>k. \<not> truthy k \<Longrightarrow> first_non_empty [k] = None"
    by simp
  show ?thesis
    using c [OF assms(1)] c [OF assms(2)]
    by (auto simp: find_api_key_def split: prod.splits sum.splits option.splits)
qed

text \<open>
  C1, that the resolver returns the first non-empty credential in the order of the four
  sources and returns "not found" rather than raising, does not hold of the script where
  a candidate file cannot be examined. With no key in the environment, a skill directory
  whose \<open>.env\<close> cannot be examined (\<open>stat\<close> raises \<open>PermissionError\<close>) and a project
  root's file that holds the key \<open>abc123\<close>, the resolver raises from the existence
  check of line 59 and prints nothing; the project root's file, the first source with a
  non-empty value, is never consulted.
\<close>

theorem stat_failure_hides_project_key:
  "load_env_file hidden_skill_file (project_env example_script) = (Some (lit ''abc123''), []) \<and>
   first_non_empty
     [Map.empty GOOGLE_API_KEY, Map.empty GEMINI_API_KEY, None,
      fst (load_env_file hidden_skill_file (project_env example_script))] =
     Some (lit ''abc123'') \<and>
   find_api_key Map.empty hidden_skill_file example_script = (Inl PermissionError, [])"
  using example_files_differ example_line_scanned
  by (simp add: find_api_key_def consult_def exists_def load_env_file_def try_body_def
      example_paths hidden_skill_file_def lit_def)

text \<open>
  A file that is missing is passed over in silence, and a file whose opening or reading
  raises is passed over with a warning.
\<close>

lemma open_failure_is_skipped:
  assumes "\<not> truthy (environ GOOGLE_API_KEY)" and "\<not> truthy (environ GEMINI_API_KEY)"
    and "files (skill_env s) = OpenFails e \<or> files (skill_env s) = Opens r \<and> scan_lines r = Inl e"
    and "files (project_env s) = Missing"
  shows "find_api_key environ files s = (Inr None, [Print (WarningReading (skill_env s) e)])"
proof -
  from assms(3) have "consult files (skill_env s) = (Inr None, [Print (WarningReading (skill_env s) e)])"
    by (auto simp: consult_open_fails consult_opens)
  then show ?thesis
    using assms(1,2,4) by (simp add: find_api_key_files consult_missing)
qed

text \<open>
  C3, that a candidate file which is missing or whose reading raises is passed over and
  no exception reaches the caller of the resolver, does not hold of the script where a
  candidate file cannot be examined. With no key in the environment, no file in the
  skill directory and a project root whose \<open>.env\<close> cannot be examined (\<open>stat\<close> raises
  \<open>PermissionError\<close>), the resolver raises from the existence check of line 68 instead
  of returning \<open>None\<close>, no warning is printed, and \<open>main\<close> ends with a traceback and
  exit code 1.
\<close>

theorem stat_failure_leaves_resolver:
  "find_api_key Map.empty hidden_project_file example_script = (Inl PermissionError, []) \<and>
   main (answering (one_candidate [])) Map.empty hidden_project_file example_script example_args
     fresh_world =
     (1, fresh_world, [Print Searching, Traceback PermissionError])"
  using example_files_differ
  by (simp add: main_def find_api_key_def consult_def exists_def example_paths
      hidden_project_file_def)

text \<open>
  C10: when the first matching line of a file has an empty value, the lookup in that
  file returns \<open>None\<close> whatever the later lines are, with no warning, and the resolver
  goes on to the next source. After the skill directory's file the outcome is that of
  the project root's file: \<open>None\<close> when it is missing, its exception when it cannot be
  examined, \<open>None\<close> with a warning when it cannot be opened, and its key when its first
  matching line has a non-empty value. After the project root's file the outcome is
  \<open>None\<close>.
\<close>

theorem empty_first_match_ends_lookup:
  assumes "\<forall>l\<in>set pre. \<not> recognized (strip l)"
    and "recognized (strip raw)"
    and "key_value (strip raw) = []"
    and "files p = Opens (lines_then pre (Line raw rest))"
  shows "load_env_file files p = (None, []) \<and>
         (\<not> truthy (environ GOOGLE_API_KEY) \<and> \<not> truthy (environ GEMINI_API_KEY) \<and>
          p = skill_env s \<longrightarrow>
            (files (project_env s) = Missing \<longrightarrow>
               find_api_key environ files s = (Inr None, [])) \<and>
            (\<forall>e. files (project_env s) = StatFails e \<longrightarrow>
               find_api_key environ files s = (Inl e, [])) \<and>
            (\<forall>e. files (project_env s) = OpenFails e \<longrightarrow>
               find_api_key environ files s =
                 (Inr None, [Print (WarningReading (project_env s) e)])) \<and>
            (\<forall>pre' raw' rest'.
               (\<forall>l\<in>set pre'. \<not> recognized (strip l)) \<and> recognized (strip raw') \<and>
               key_value (strip raw') \<noteq> [] \<and>
               files (project_env s) = Opens (lines_then pre' (Line raw' rest')) \<longrightarrow>
               find_api_key environ files s =
                 (Inr (Some (key_value (strip raw'))),
                  [Print (FoundProjectDir (project_env s))]))) \<and>
         (\<not> truthy (environ GOOGLE_API_KEY) \<and> \<not> truthy (environ GEMINI_API_KEY) \<and>
          p = project_env s \<and> files (skill_env s) = Missing \<longrightarrow>
            find_api_key environ files s = (Inr None, []))"
proof (intro conjI impI allI)
  have "scan_lines (lines_then pre (Line raw rest)) = Inr None"
    using scan_lines_first_match [OF assms(1,2), of rest] assms(3) by simp
  with assms(4) show "load_env_file files p = (None, [])"
    by (simp add: load_env_file_def try_body_def)
next
  assume h: "\<not> truthy (environ GOOGLE_API_KEY) \<and> \<not> truthy (environ GEMINI_API_KEY) \<and>
          p = skill_env s"
  then have c: "consult files (skill_env s) = (Inr None, [])"
    using consult_first_match [of pre raw files p rest, OF assms(1,2,4)] assms(3) by simp
  note f = find_api_key_files [of environ files s "[]", OF _ _ c]
  {
    assume "files (project_env s) = Missing"
    then show "find_api_key environ files s = (Inr None, [])"
      using h by (simp add: f consult_missing)
  next
    fix e
    assume "files (project_env s) = StatFails e"
    then show "find_api_key environ files s = (Inl e, [])"
      using h by (simp add: f consult_stat_fails)
  next
    fix e
    assume "files (project_env s) = OpenFails e"
    then show "find_api_key environ files s =
                 (Inr None, [Print (WarningReading (project_env s) e)])"
      using h by (simp add: f consult_open_fails)
  next
    fix pre' raw' rest'
    assume k: "(\<forall>l\<in>set pre'. \<not> recognized (strip l)) \<and> recognized (strip raw') \<and>
               key_value (strip raw') \<noteq> [] \<and>
               files (project_env s) = Opens (lines_then pre' (Line raw' rest'))"
    then have "consult files (project_env s) = (Inr (Some (key_value (strip raw'))), [])"
      using consult_first_match [of pre' raw' files "project_env s" rest'] by simp
    then show "find_api_key environ files s =
                 (Inr (Some (key_value (strip raw'))),
                  [Print (FoundProjectDir (project_env s))])"
      using h by (simp add: f)
  }
next
  assume h: "\<not> truthy (environ GOOGLE_API_KEY) \<and> \<not> truthy (environ GEMINI_API_KEY) \<and>
          p = project_env s \<and> files (skill_env s) = Missing"
  then have "consult files (project_env s) = (Inr None, [])"
    using consult_first_match [of pre raw files p rest, OF assms(1,2,4)] assms(3) by simp
  then show "find_api_key environ files s = (Inr None, [])"
    using h by (simp add: find_api_key_files [of environ files s "[]"] consult_missing)
qed

theorem empty_first_match_ends_lookup_witness:
  "\<not> recognized (strip (lit ''# keys'')) \<and>
   recognized (strip (lit ''GOOGLE_API_KEY='' @ [dquote, dquote])) \<and>
   key_value (strip (lit ''GOOGLE_API_KEY='' @ [dquote, dquote])) = [] \<and>
   load_env_file empty_then_real (skill_env example_script) = (None, []) \<and>
   find_api_key Map.empty empty_then_real example_script =
     (Inr (Some (lit ''abc123'')), [Print (FoundProjectDir (project_env example_script))])"
proof -
  have 1: "\<forall>l\<in>set [lit ''# keys'']. \<not> recognized (strip l)"
    by (simp add: eval_strings)
  have 2: "recognized (strip (lit ''GOOGLE_API_KEY='' @ [dquote, dquote]))"
    by (simp add: eval_strings)
  have 3: "key_value (strip (lit ''GOOGLE_API_KEY='' @ [dquote, dquote])) = []"
    by (simp add: eval_strings)
  have 4: "empty_then_real (skill_env example_script) =
             Opens (lines_then [lit ''# keys'']
                   (Line (lit ''GOOGLE_API_KEY='' @ [dquote, dquote])
                     (Line (lit ''GEMINI_API_KEY=real'') EOF)))"
    by (simp add: empty_then_real_def example_paths)
  have 5: "empty_then_real (project_env example_script) = Opens (lines_then [] (Line example_line EOF))"
    using example_files_differ by (simp add: empty_then_real_def example_paths)
  have 6: "recognized (strip example_line)"
    by (simp add: example_line_def eval_strings)
  have 7: "key_value (strip example_line) = lit ''abc123''"
    by (simp add: example_line_def eval_strings)
  have 8: "lit ''abc123'' \<noteq> []"
    by (simp add: lit_def)
  note t = empty_first_match_ends_lookup [of "[lit ''# keys'']"
        "lit ''GOOGLE_API_KEY='' @ [dquote, dquote]" empty_then_real "skill_env example_script"
        "Line (lit ''GEMINI_API_KEY=real'') EOF" Map.empty example_script, OF 1 2 3 4]
  from t have a: "load_env_file empty_then_real (skill_env example_script) = (None, [])"
    by simp
  from t have "\<forall>pre' raw' rest'.
               (\<forall>l\<in>set pre'. \<not> recognized (strip l)) \<and> recognized (strip raw') \<and>
               key_value (strip raw') \<noteq> [] \<and>
               empty_then_real (project_env example_script) =
                 Opens (lines_then pre' (Line raw' rest')) \<longrightarrow>
               find_api_key Map.empty empty_then_real example_script =
                 (Inr (Some (key_value (strip raw'))),
                  [Print (FoundProjectDir (project_env example_script))])"
    by simp
  from this [rule_format, of "[]" example_line EOF] 5 6 7 8
  have b: "find_api_key Map.empty empty_then_real example_script =
     (Inr (Some (lit ''abc123'')), [Print (FoundProjectDir (project_env example_script))])"
    by simp
  from 1 2 3 a b show ?thesis by simp
qed

section \<open>Properties of the request executor\<close>

subsection \<open>Sequencing\<close>

lemma bind_run_ret [simp]: "bind_run (ret a) f = f a"
  by (rule ext) (simp add: bind_run_def ret_def split: prod.splits)

lemma bind_run_raise [simp]: "bind_run (raise e) f = raise e"
  by (rule ext) (simp add: bind_run_def raise_def)




subsection \<open>The call and the response\<close>

lemma generate_image_raises:
  assumes "service api_key (the_request model prompt include_text) = Inl e"
  shows "generate_image service prompt api_key include_text output_path model w =
           (False, w, banner model prompt include_text @
              [CallService api_key (the_request model prompt include_text),
               Print (ErrorGenerating e)])"
  using assms
  by (simp add: generate_image_def try_generate_def generate_content_def bind_run_def
      the_request_def banner_def Let_def)

lemma generate_image_responds:
  assumes "service api_key (the_request model prompt include_text) = Inr response"
  shows "generate_image service prompt api_key include_text output_path model w =
           (case process_response include_text output_path response w of
              (Inr ok, w', es) \<Rightarrow>
                (ok, w', banner model prompt include_text @
                   CallService api_key (the_request model prompt include_text) # es)
            | (Inl e, w', es) \<Rightarrow>
                (False, w', banner model prompt include_text @
                   CallService api_key (the_request model prompt include_text) # es @
                   [Print (ErrorGenerating e)]))"
  using assms
  by (simp add: generate_image_def try_generate_def generate_content_def bind_run_def
      the_request_def banner_def Let_def split: prod.splits sum.splits)

lemma process_response_completes:
  assumes "candidates response = Some (cand # others)"
    and "content cand = Some c" and "parts c = Some ps"
    and "save_images output_path 0 ps 0 w = (Inr n, w1, es)"
  shows "process_response include_text output_path response w =
           (Inr (0 < n), w1,
            es @ text_output include_text ps @ [Print (if n = 0 then NoImages else Success n)])"
  using assms
  by (simp add: process_response_def bind_run_def print_text_def text_output_def emit_def
      ret_def)

lemma process_response_loop_raises:
  assumes "candidates response = Some (cand # others)"
    and "content cand = Some c" and "parts c = Some ps"
    and "save_images output_path 0 ps 0 w = (Inl e, w1, es)"
  shows "process_response include_text output_path response w = (Inl e, w1, es)"
  using assms by (simp add: process_response_def bind_run_def)

subsection \<open>Evaluation of the examples\<close>

lemmas eval_run =
  generate_image_def try_generate_def generate_content_def process_response_def
  save_part_def save_path_for_def bind_run_def ret_def raise_def emit_def now_def
  mkdir_parents_def open_wb_def write_data_def print_text_def text_parts_def
  List.map_filter_def node_at_def parent_def joinpath_def assets_dir_def default_name_def
  strftime_def zfill_def Let_def locate_def os_mkdir_def mkdir_once_def is_dir_def
  dotdot_def Path_def

lemmas eval_examples =
  answering_def one_candidate_def image_part_def text_part_def fresh_world_def noon_def
  lit_def in_assets_def with_assets_def

lemma Path_custom: "Path (lit ''custom.png'') = \<lparr>absolute = False, names = [lit ''custom.png'']\<rparr>"
  by (simp add: Path_def lit_def)

lemma Path_out: "Path (lit ''out'') = \<lparr>absolute = False, names = [lit ''out'']\<rparr>"
  by (simp add: Path_def lit_def)


subsection \<open>A response with no candidates\<close>

text \<open>
  C4: when the service returns a response with no candidates (\<open>None\<close> or an
  empty list), the executor returns failure, the world is unchanged, and the events are
  the four lines of the banner, the request and the message: no directory is created and
  no file is opened or written.
\<close>
theorem no_candidates_no_writes:
  assumes "service api_key (the_request model prompt include_text) = Inr response"
    and "candidates response = None \<or> candidates response = Some []"
  shows "generate_image service prompt api_key include_text output_path model w =
           (False, w,
            banner model prompt include_text @
            [CallService api_key (the_request model prompt include_text), Print NoCandidates]) \<and>
         filter is_fs_change (snd (snd
           (generate_image service prompt api_key include_text output_path model w))) = []"
proof -
  from assms(2) have "process_response include_text output_path response w =
      (Inr False, w, [Print NoCandidates])"
    by (auto simp: process_response_def bind_run_def emit_def ret_def)
  then show ?thesis
    by (simp add: generate_image_responds [of service, OF assms(1)] banner_def)
qed

theorem no_candidates_no_writes_witness:
  "generate_image (answering \<lparr>candidates = Some []\<rparr>) (lit ''a cat'') (lit ''key'') False None
     (lit ''m'') fresh_world =
     (False, fresh_world,
      banner (lit ''m'') (lit ''a cat'') False @
      [CallService (lit ''key'') (the_request (lit ''m'') (lit ''a cat'') False),
       Print NoCandidates])"
  using no_candidates_no_writes [of "answering \<lparr>candidates = Some []\<rparr>" "lit ''key''"
      "lit ''m''" "lit ''a cat''" False "\<lparr>candidates = Some []\<rparr>" None fresh_world]
  by (simp add: answering_def)

subsection \<open>Result and exit code\<close>

lemma save_part_count:
  "save_part op i p n w = (Inr c, w', es) \<Longrightarrow>
   c = n + (if inline_data p = None then 0 else 1)"
  by (auto simp: save_part_def ret_def bind_run_def Let_def
      split: option.splits prod.splits sum.splits)

lemma save_images_count:
  "save_images op i ps n w = (Inr c, w', es) \<Longrightarrow> c = n + image_count ps"
proof (induction ps arbitrary: i n w w' es)
  case Nil
  then show ?case by (simp add: ret_def image_count_def)
next
  case (Cons p ps)
  from Cons.prems obtain c1 w1 es1 es2 where
    1: "save_part op i p n w = (Inr c1, w1, es1)" and
    2: "save_images op (Suc i) ps c1 w1 = (Inr c, w', es2)"
    by (auto simp: bind_run_def split: prod.splits sum.splits)
  from save_part_count [OF 1] Cons.IH [OF 2] show ?case
    by (simp add: image_count_def)
qed

lemma main_exit_code:
  "fst (main service environ files s a w) =
     (case fst (find_api_key environ files s) of
        Inl e \<Rightarrow> 1
      | Inr None \<Rightarrow> 1
      | Inr (Some k) \<Rightarrow>
          if k \<noteq> [] \<and>
             fst (generate_image service (arg_prompt a) k (arg_include_text a) (arg_output a)
                    (arg_model a) w)
          then 0 else 1)"
proof (cases "find_api_key environ files s")
  case (Pair r out)
  show ?thesis
  proof (cases r)
    case (Inl e)
    with Pair show ?thesis by (simp add: main_def)
  next
    case (Inr api_key)
    show ?thesis
    proof (cases api_key)
      case None
      with Pair Inr show ?thesis by (simp add: main_def)
    next
      case (Some k)
      obtain ok w' es where
        "generate_image service (arg_prompt a) k (arg_include_text a) (arg_output a)
           (arg_model a) w = (ok, w', es)"
        by (metis prod_cases3)
      with Pair Inr Some show ?thesis by (simp add: main_def)
    qed
  qed
qed

text \<open>
  C7: when the response has a first candidate with parts and the loop over them completes
  with counter \<open>n\<close>, the counter is the number of image parts and the result
  is \<open>0 < n\<close>, whatever the text parts and the flag are; the text lines stand
  in the output before the closing message, also when that message is the failure. When
  the loop or the call raises the result is failure. The exit code of \<open>main\<close>
  is 0 when a key was found and the executor succeeded, and 1 otherwise, also when the
  resolver raises.
\<close>
theorem success_iff_image_counted:
  "(service api_key (the_request model prompt include_text) = Inr response \<and>
    candidates response = Some (cand # others) \<and> content cand = Some c \<and> parts c = Some ps \<and>
    save_images output_path 0 ps 0 w = (Inr n, w1, es) \<longrightarrow>
      n = image_count ps \<and>
      generate_image service prompt api_key include_text output_path model w =
        (0 < n, w1,
         banner model prompt include_text @
         CallService api_key (the_request model prompt include_text) # es @
         text_output include_text ps @ [Print (if n = 0 then NoImages else Success n)])) \<and>
   (service api_key (the_request model prompt include_text) = Inr response \<and>
    candidates response = Some (cand # others) \<and> content cand = Some c \<and> parts c = Some ps \<and>
    save_images output_path 0 ps 0 w = (Inl e, w1, es) \<longrightarrow>
      fst (generate_image service prompt api_key include_text output_path model w) = False) \<and>
   (service api_key (the_request model prompt include_text) = Inl e \<longrightarrow>
      fst (generate_image service prompt api_key include_text output_path model w) = False) \<and>
   fst (main service environ files s a w) =
     (case fst (find_api_key environ files s) of
        Inl e \<Rightarrow> 1
      | Inr None \<Rightarrow> 1
      | Inr (Some k) \<Rightarrow>
          if k \<noteq> [] \<and>
             fst (generate_image service (arg_prompt a) k (arg_include_text a) (arg_output a)
                    (arg_model a) w)
          then 0 else 1)"
proof (intro conjI impI)
  assume h: "service api_key (the_request model prompt include_text) = Inr response \<and>
    candidates response = Some (cand # others) \<and> content cand = Some c \<and> parts c = Some ps \<and>
    save_images output_path 0 ps 0 w = (Inr n, w1, es)"
  then show "n = image_count ps"
    using save_images_count [of output_path 0 ps 0 w n w1 es] by simp
  from h have "process_response include_text output_path response w =
           (Inr (0 < n), w1,
            es @ text_output include_text ps @ [Print (if n = 0 then NoImages else Success n)])"
    by (intro process_response_completes) auto
  with h show "generate_image service prompt api_key include_text output_path model w =
        (0 < n, w1,
         banner model prompt include_text @
         CallService api_key (the_request model prompt include_text) # es @
         text_output include_text ps @ [Print (if n = 0 then NoImages else Success n)])"
    by (simp add: generate_image_responds [of service])
next
  assume h: "service api_key (the_request model prompt include_text) = Inr response \<and>
    candidates response = Some (cand # others) \<and> content cand = Some c \<and> parts c = Some ps \<and>
    save_images output_path 0 ps 0 w = (Inl e, w1, es)"
  then have "process_response include_text output_path response w = (Inl e, w1, es)"
    by (intro process_response_loop_raises) auto
  with h show "fst (generate_image service prompt api_key include_text output_path model w) = False"
    by (simp add: generate_image_responds [of service])
next
  assume "service api_key (the_request model prompt include_text) = Inl e"
  then show "fst (generate_image service prompt api_key include_text output_path model w) = False"
    by (simp add: generate_image_raises [of service])
next
  show "fst (main service environ files s a w) =
     (case fst (find_api_key environ files s) of
        Inl e \<Rightarrow> 1
      | Inr None \<Rightarrow> 1
      | Inr (Some k) \<Rightarrow>
          if k \<noteq> [] \<and>
             fst (generate_image service (arg_prompt a) k (arg_include_text a) (arg_output a)
                    (arg_model a) w)
          then 0 else 1)"
    by (rule main_exit_code)
qed

theorem success_iff_image_counted_witness:
  "generate_image (answering (one_candidate [text_part (lit ''hello'')])) (lit ''a cat'')
     (lit ''key'') True None (lit ''m'') fresh_world =
     (False, fresh_world,
      banner (lit ''m'') (lit ''a cat'') True @
      [CallService (lit ''key'') (the_request (lit ''m'') (lit ''a cat'') True),
       Print GeneratedTextHeader, Print (TextLine (lit ''hello'')), Print NoImages])"
proof -
  have l: "save_images None 0 [text_part (lit ''hello'')] 0 fresh_world = (Inr 0, fresh_world, [])"
    by (simp add: save_part_def text_part_def ret_def)
  have t: "text_output True [text_part (lit ''hello'')] =
             [Print GeneratedTextHeader, Print (TextLine (lit ''hello''))]"
    by (simp add: text_output_def text_parts_def text_part_def List.map_filter_def lit_def)
  show ?thesis
    using success_iff_image_counted [of "answering (one_candidate [text_part (lit ''hello'')])"
        "lit ''key''" "lit ''m''" "lit ''a cat''" True
        "one_candidate [text_part (lit ''hello'')]"
        "\<lparr>content = Some \<lparr>parts = Some [text_part (lit ''hello'')]\<rparr>\<rparr>" "[]"
        "\<lparr>parts = Some [text_part (lit ''hello'')]\<rparr>" "[text_part (lit ''hello'')]"
        None fresh_world 0 fresh_world "[]"] l t
    by (simp add: answering_def one_candidate_def)
qed

subsection \<open>No credential\<close>

lemma load_env_file_no_call: "filter is_call (snd (load_env_file files p)) = []"
  by (simp add: load_env_file_def split: sum.splits)

lemma consult_no_call: "filter is_call (snd (consult files p)) = []"
  using load_env_file_no_call [of files p]
  by (auto simp: consult_def split: sum.splits bool.splits prod.splits)

lemma find_api_key_no_call: "filter is_call (snd (find_api_key environ files s)) = []"
  using consult_no_call [of files "skill_env s"] consult_no_call [of files "project_env s"]
  by (auto simp: find_api_key_def Let_def split: prod.splits sum.splits option.splits)

text \<open>
  C9: when the resolver finds no key, \<open>main\<close> prints the guidance with the
  four sources, exits with code 1, leaves the world as it is, and no event is a request to
  the service.
\<close>

theorem missing_key_no_request:
  assumes "fst (find_api_key environ files s) = Inr key" and "\<not> truthy key"
  shows "main service environ files s a w =
           (1, w,
            [Print Searching] @ snd (find_api_key environ files s) @
            [Print KeyNotFound, Print PleaseSetKey, Print GuideGoogleEnv, Print GuideGeminiEnv,
             Print GuideSkillDir, Print GuideProjectRoot, Print GetKeyAt]) \<and>
         filter is_call (snd (snd (main service environ files s a w))) = []"
proof -
  have m: "main service environ files s a w =
           (1, w,
            [Print Searching] @ snd (find_api_key environ files s) @
            [Print KeyNotFound, Print PleaseSetKey, Print GuideGoogleEnv, Print GuideGeminiEnv,
             Print GuideSkillDir, Print GuideProjectRoot, Print GetKeyAt])"
    using assms by (cases "find_api_key environ files s") (simp add: main_def guidance_def)
  then show ?thesis
    by (simp add: find_api_key_no_call)
qed

theorem missing_key_no_request_witness:
  "main (answering (one_candidate [])) Map.empty (\<lambda>p. Missing) example_script example_args
     fresh_world =
     (1, fresh_world,
      [Print Searching, Print KeyNotFound, Print PleaseSetKey, Print GuideGoogleEnv,
       Print GuideGeminiEnv, Print GuideSkillDir, Print GuideProjectRoot, Print GetKeyAt])"
proof -
  have f: "find_api_key Map.empty (\<lambda>p. Missing) example_script = (Inr None, [])"
    by (simp add: find_api_key_def consult_def exists_def)
  then show ?thesis
    using missing_key_no_request [of Map.empty "\<lambda>p. Missing" example_script None
        "answering (one_candidate [])" example_args fresh_world]
    by simp
qed

subsection \<open>Resolving paths and making directories\<close>



















subsection \<open>Explicit output path\<close>

lemma save_part_no_image:
  "inline_data p = None \<Longrightarrow> save_part op i p n = ret n"
  by (simp add: save_part_def)








text \<open>
  The system resolves \<open>..\<close> in an explicit path: \<open>a/../out\<close> is the directory \<open>out\<close>, after
  the directory \<open>a\<close> has been created.
\<close>

lemma dotdot_path_example:
  "generate_image (answering (one_candidate image_only)) (lit ''a cat'') (lit ''key'') False
     (Some (lit ''a/../out'')) (lit ''m'') blocked_world =
     (False,
      blocked_world\<lparr>fs := [[lit ''work''] \<mapsto> Dir, [lit ''work'', lit ''out''] \<mapsto> Dir,
                             [lit ''work'', lit ''a''] \<mapsto> Dir]\<rparr>,
      banner (lit ''m'') (lit ''a cat'') False @
      [CallService (lit ''key'') (the_request (lit ''m'') (lit ''a cat'') False),
       MkdirParents (parent (Path (lit ''a/../out''))), OpenWrite (Path (lit ''a/../out'')),
       Print (ErrorGenerating IsADirectoryError)])"
  by (simp add: eval_run eval_examples image_only_def blocked_world_def banner_def
      the_request_def str_nat.simps mkdir_fs.simps)

subsection \<open>Default names\<close>
















lemma node_at_keeps: "l \<noteq> [] \<Longrightarrow> f1 l = f l \<Longrightarrow> node_at f1 l = node_at f l"
  by (simp add: node_at_def)










subsection \<open>Text parts with the flag unset\<close>

lemma emits_only_ret: "emits_only P (ret a)"
  by (simp add: emits_only_def ret_def)

lemma emits_only_raise: "emits_only P (raise e)"
  by (simp add: emits_only_def raise_def)

lemma emits_only_emit: "P ev \<Longrightarrow> emits_only P (emit ev)"
  by (simp add: emits_only_def emit_def)

lemma emits_only_bind:
  "emits_only P m \<Longrightarrow> (\<And>a. emits_only P (f a)) \<Longrightarrow> emits_only P (bind_run m f)"
  unfolding emits_only_def bind_run_def
proof (intro allI)
  fix w
  assume m: "\<forall>w. list_all P (snd (snd (m w)))" and f: "\<And>a. \<forall>w. list_all P (snd (snd (f a w)))"
  obtain r w1 es where mw: "m w = (r, w1, es)" by (cases "m w") auto
  with m have es: "list_all P es" by (metis snd_conv)
  show "list_all P (snd (snd (case m w of
          (Inl e, w', es) \<Rightarrow> (Inl e, w', es)
        | (Inr a, w', es) \<Rightarrow> (case f a w' of (r, w'', es') \<Rightarrow> (r, w'', es @ es')))))"
  proof (cases r)
    case (Inl e)
    with mw es show ?thesis by simp
  next
    case (Inr a)
    obtain r2 w2 es2 where fw: "f a w1 = (r2, w2, es2)" by (cases "f a w1") auto
    with f have "list_all P es2" by (metis snd_conv)
    with Inr mw es fw show ?thesis by simp
  qed
qed

lemma emits_only_now: "P ReadClock \<Longrightarrow> emits_only P now"
  by (simp add: emits_only_def now_def)

lemma emits_only_mkdir_parents: "P (MkdirParents p) \<Longrightarrow> emits_only P (mkdir_parents p)"
  by (simp add: emits_only_def mkdir_parents_def bind_run_def emit_def split: prod.splits option.splits)

lemma emits_only_open_wb: "P (OpenWrite p) \<Longrightarrow> emits_only P (open_wb p)"
  by (simp add: emits_only_def open_wb_def bind_run_def emit_def
      split: sum.splits option.splits node.splits)

lemma emits_only_write_data:
  "(\<And>b. P (WriteBytes p b)) \<Longrightarrow> emits_only P (write_data p h d)"
  by (cases d) (simp_all add: emits_only_def write_data_def bind_run_def emit_def raise_def)

lemma no_text_save_path_for:
  "emits_only (\<lambda>e. \<not> is_text_output e) (save_path_for op i)"
  unfolding save_path_for_def
  by (auto intro!: emits_only_bind emits_only_ret emits_only_raise emits_only_now
      emits_only_mkdir_parents split: option.splits)

lemma no_text_save_part:
  "emits_only (\<lambda>e. \<not> is_text_output e) (save_part op i p n)"
  unfolding save_part_def Let_def
  by (auto intro!: emits_only_bind emits_only_ret emits_only_emit emits_only_mkdir_parents
      emits_only_open_wb emits_only_write_data no_text_save_path_for split: option.splits)

lemma no_text_save_images:
  "emits_only (\<lambda>e. \<not> is_text_output e) (save_images op i ps n)"
  by (induction ps arbitrary: i n)
     (auto intro!: emits_only_bind emits_only_ret no_text_save_part)

lemma no_text_print_text: "emits_only (\<lambda>e. \<not> is_text_output e) (print_text False ps)"
  by (simp add: emits_only_def print_text_def)

lemma no_text_process_response:
  "emits_only (\<lambda>e. \<not> is_text_output e) (process_response False op r)"
  unfolding process_response_def
  by (auto intro!: emits_only_bind emits_only_ret emits_only_raise emits_only_emit
      no_text_save_images no_text_print_text split: option.splits list.splits)

lemma filter_none_if_list_all: "list_all (\<lambda>e. \<not> P e) es \<Longrightarrow> filter P es = []"
  by (induction es) auto

lemma process_response_no_text:
  "process_response False op r w = (res, w', es) \<Longrightarrow> filter is_text_output es = []"
  using no_text_process_response [of op r]
  by (auto simp: emits_only_def intro!: filter_none_if_list_all dest: spec [of _ w])

lemma save_part_erase_text: "save_part op i (erase_text p) n = save_part op i p n"
  by (simp add: save_part_def erase_text_def)

lemma save_images_erase_text:
  "save_images op i (map erase_text ps) = save_images op i ps"
proof (induction ps arbitrary: i)
  case Nil
  show ?case by simp
next
  case (Cons p ps)
  show ?case by (rule ext) (simp add: save_part_erase_text Cons.IH)
qed

lemma print_text_False: "print_text False ps = ret ()"
  by (rule ext) (simp add: print_text_def ret_def)

lemma process_response_without_text:
  "process_response False op (without_text r) = process_response False op r"
  by (auto simp: process_response_def without_text_def save_images_erase_text
      print_text_False split: option.splits list.splits)

lemma generate_image_no_text:
  "filter is_text_output (snd (snd (generate_image service prompt api_key False op model w))) = []"
proof (cases "service api_key (the_request model prompt False)")
  case (Inl e)
  then show ?thesis
    by (simp add: generate_image_raises [of service] banner_def)
next
  case (Inr r)
  obtain res w' es where p: "process_response False op r w = (res, w', es)"
    by (metis prod_cases3)
  from process_response_no_text [OF p] p show ?thesis
    by (cases res) (simp_all add: generate_image_responds [of service, OF Inr] banner_def)
qed

lemma save_part_blob_part:
  "inline_data p = Some b \<Longrightarrow> save_part op i p = save_part op i (blob_part b)"
  by (rule ext) (simp add: save_part_def blob_part_def)

lemma save_images_indexed: "save_images op i ps = save_indexed op (indexed_blobs i ps)"
proof (induction ps arbitrary: i)
  case Nil
  show ?case by (rule ext) simp
next
  case (Cons p ps)
  show ?case
  proof (cases "inline_data p")
    case None
    then show ?thesis
      by (intro ext) (simp add: save_part_no_image Cons.IH)
  next
    case (Some b)
    then show ?thesis
      by (intro ext) (simp add: save_part_blob_part [OF Some] Cons.IH)
  qed
qed

lemma blobs_indexed: "map snd (indexed_blobs i ps) = blobs ps"
  by (induction ps arbitrary: i) (auto simp: blobs_def List.map_filter_def split: option.splits)

lemma save_part_explicit_index:
  "truthy op \<Longrightarrow> save_part op i p = save_part op j p"
  by (rule ext) (simp add: save_part_def save_path_for_def split: option.splits)

lemma save_indexed_explicit:
  "truthy op \<Longrightarrow> map snd ibs1 = map snd ibs2 \<Longrightarrow> save_indexed op ibs1 = save_indexed op ibs2"
proof (induction ibs1 arbitrary: ibs2)
  case Nil
  then show ?case by simp
next
  case (Cons ib rest)
  from Cons.prems(2) obtain jb rest' where ibs2: "ibs2 = jb # rest'"
    and b: "snd ib = snd jb" and r: "map snd rest = map snd rest'"
    by (cases ibs2) auto
  have "save_part op (fst ib) (blob_part (snd ib)) = save_part op (fst jb) (blob_part (snd jb))"
    unfolding b using Cons.prems(1) by (rule save_part_explicit_index)
  with Cons.IH [OF Cons.prems(1) r] show ?case
    by (intro ext) (simp add: ibs2)
qed

lemma save_images_explicit_blobs:
  assumes "truthy op" and "blobs ps1 = blobs ps2"
  shows "save_images op i ps1 = save_images op j ps2"
  unfolding save_images_indexed using assms
  by (intro save_indexed_explicit) (simp_all add: blobs_indexed)

lemma process_response_parts:
  assumes "first_parts r = Some ps"
  shows "process_response False op r =
           bind_run (save_images op 0 ps 0) (\<lambda>image_count.
             if image_count = 0
             then bind_run (emit (Print NoImages)) (\<lambda>_. ret False)
             else bind_run (emit (Print (Success image_count))) (\<lambda>_. ret True))"
  using assms
  by (auto simp: process_response_def first_parts_def print_text_False
      split: option.splits list.splits)

lemma image_count_blobs: "image_count ps = length (blobs ps)"
  by (induction ps) (auto simp: image_count_def blobs_def List.map_filter_def)

lemma payloads_blobs:
  "payloads ps = concat (map (\<lambda>b. case data b of None \<Rightarrow> [] | Some d \<Rightarrow> [d]) (blobs ps))"
  by (induction ps) (auto simp: payloads_def blobs_def List.map_filter_def split: option.splits)

lemma written_append: "written (es @ es') = written es @ written es'"
  by (simp add: written_def)

lemma bind_run_InrE:
  assumes "bind_run m f w = (Inr c, w', es)"
  obtains a w1 es1 es2 where "m w = (Inr a, w1, es1)" and "f a w1 = (Inr c, w', es2)"
    and "es = es1 @ es2"
  using assms by (auto simp: bind_run_def split: prod.splits sum.splits)

lemma written_save_path_for: "save_path_for op i w = (r, w', es) \<Longrightarrow> written es = []"
  by (auto simp: save_path_for_def written_def ret_def raise_def bind_run_def emit_def now_def
      mkdir_parents_def split: option.splits prod.splits if_splits)

lemma written_mkdir_parents: "mkdir_parents q w = (r, w', es) \<Longrightarrow> written es = []"
  by (auto simp: written_def bind_run_def emit_def mkdir_parents_def
      split: option.splits prod.splits)

lemma written_open_wb: "open_wb q w = (r, w', es) \<Longrightarrow> written es = []"
  by (auto simp: written_def bind_run_def emit_def open_wb_def
      split: option.splits sum.splits node.splits if_splits)

lemma written_write_data:
  "write_data q h d w = (Inr u, w', es) \<Longrightarrow> (case d of None \<Rightarrow> [] | Some b \<Rightarrow> [b]) = written es"
  by (cases d) (auto simp: written_def bind_run_def emit_def write_data_def raise_def)

lemma save_part_written:
  assumes "save_part op i p n w = (Inr c, w', es)"
  shows "written es = payloads [p]"
proof (cases "inline_data p")
  case None
  with assms show ?thesis
    by (simp add: save_part_def ret_def written_def payloads_def)
next
  case (Some b)
  with assms have run: "bind_run (save_path_for op i) (\<lambda>save_path.
           bind_run (mkdir_parents (parent save_path)) (\<lambda>_.
           bind_run (open_wb save_path) (\<lambda>h.
           bind_run (write_data save_path h (data b)) (\<lambda>_.
           bind_run (emit (Print (ImageSaved save_path))) (\<lambda>_.
           ret (Suc n)))))) w = (Inr c, w', es)"
    by (simp add: save_part_def)
  from run obtain sp w1 e1 r1 where
    a1: "save_path_for op i w = (Inr sp, w1, e1)" and
    b1: "bind_run (mkdir_parents (parent sp)) (\<lambda>_.
           bind_run (open_wb sp) (\<lambda>h.
           bind_run (write_data sp h (data b)) (\<lambda>_.
           bind_run (emit (Print (ImageSaved sp))) (\<lambda>_. ret (Suc n))))) w1 = (Inr c, w', r1)" and
    c1: "es = e1 @ r1"
    by (rule bind_run_InrE)
  from b1 obtain u w2 e2 r2 where
    a2: "mkdir_parents (parent sp) w1 = (Inr u, w2, e2)" and
    b2: "bind_run (open_wb sp) (\<lambda>h.
           bind_run (write_data sp h (data b)) (\<lambda>_.
           bind_run (emit (Print (ImageSaved sp))) (\<lambda>_. ret (Suc n)))) w2 = (Inr c, w', r2)" and
    c2: "r1 = e2 @ r2"
    by (rule bind_run_InrE)
  from b2 obtain h w3 e3 r3 where
    a3: "open_wb sp w2 = (Inr h, w3, e3)" and
    b3: "bind_run (write_data sp h (data b)) (\<lambda>_.
           bind_run (emit (Print (ImageSaved sp))) (\<lambda>_. ret (Suc n))) w3 = (Inr c, w', r3)" and
    c3: "r2 = e3 @ r3"
    by (rule bind_run_InrE)
  from b3 obtain v w4 e4 r4 where
    a4: "write_data sp h (data b) w3 = (Inr v, w4, e4)" and
    b4: "bind_run (emit (Print (ImageSaved sp))) (\<lambda>_. ret (Suc n)) w4 = (Inr c, w', r4)" and
    c4: "r3 = e4 @ r4"
    by (rule bind_run_InrE)
  from b4 have r4: "written r4 = []"
    by (auto simp: bind_run_def emit_def ret_def written_def)
  have "written es = written e4"
    using written_save_path_for [OF a1] written_mkdir_parents [OF a2] written_open_wb [OF a3] r4
    by (simp add: c1 c2 c3 c4 written_append)
  with written_write_data [OF a4] Some show ?thesis
    by (simp add: payloads_def)
qed

lemma payloads_Cons: "payloads (p # ps) = payloads [p] @ payloads ps"
  by (simp add: payloads_def)

lemma save_images_written:
  "save_images op i ps n w = (Inr c, w', es) \<Longrightarrow> written es = payloads ps"
proof (induction ps arbitrary: i n w w' es)
  case Nil
  then show ?case by (simp add: ret_def written_def payloads_def)
next
  case (Cons p ps)
  from Cons.prems obtain c1 w1 es1 es2 where
    1: "save_part op i p n w = (Inr c1, w1, es1)" and
    2: "save_images op (Suc i) ps c1 w1 = (Inr c, w', es2)" and
    3: "es = es1 @ es2"
    by (auto simp: bind_run_def split: prod.splits sum.splits)
  from save_part_written [OF 1] Cons.IH [OF 2] 3 show ?case
    by (simp add: written_append payloads_Cons [of p ps])
qed

text \<open>
  C8, in the form that holds of the script. With the flag unset no run prints a line of
  generated text. Two runs whose responses differ only in their text parts, that is, whose
  first candidates carry the same image parts in the same order, are the same run (result,
  files and output) when an explicit output path is given, and for every output path when
  the image parts stand at the same positions among all parts or when the responses agree
  up to the text that their parts carry. With default names a text part before an image
  part moves the index in the name of that image; when both loops complete, the two runs
  still save the same number of images, write the same payloads in the same order and
  return the same result.
\<close>

theorem text_parts_ignored_without_flag:
  assumes "service1 api_key (the_request model prompt False) = Inr r1"
    and "service2 api_key (the_request model prompt False) = Inr r2"
  shows "filter is_text_output
           (snd (snd (generate_image service1 prompt api_key False output_path model w))) = [] \<and>
         (first_parts r1 = Some ps1 \<and> first_parts r2 = Some ps2 \<and> blobs ps1 = blobs ps2 \<and>
          truthy output_path \<longrightarrow>
            generate_image service1 prompt api_key False output_path model w =
            generate_image service2 prompt api_key False output_path model w) \<and>
         (first_parts r1 = Some ps1 \<and> first_parts r2 = Some ps2 \<and>
          indexed_blobs 0 ps1 = indexed_blobs 0 ps2 \<longrightarrow>
            generate_image service1 prompt api_key False output_path model w =
            generate_image service2 prompt api_key False output_path model w) \<and>
         (without_text r1 = without_text r2 \<longrightarrow>
            generate_image service1 prompt api_key False output_path model w =
            generate_image service2 prompt api_key False output_path model w) \<and>
         (first_parts r1 = Some ps1 \<and> first_parts r2 = Some ps2 \<and> blobs ps1 = blobs ps2 \<and>
          save_images output_path 0 ps1 0 w = (Inr n1, w1, es1) \<and>
          save_images output_path 0 ps2 0 w = (Inr n2, w2, es2) \<longrightarrow>
            n1 = n2 \<and> written es1 = written es2 \<and>
            fst (generate_image service1 prompt api_key False output_path model w) =
            fst (generate_image service2 prompt api_key False output_path model w))"
proof (intro conjI impI)
  show "filter is_text_output
          (snd (snd (generate_image service1 prompt api_key False output_path model w))) = []"
    by (rule generate_image_no_text)
next
  assume h: "first_parts r1 = Some ps1 \<and> first_parts r2 = Some ps2 \<and> blobs ps1 = blobs ps2 \<and>
    truthy output_path"
  then have "save_images output_path 0 ps1 = save_images output_path 0 ps2"
    by (intro save_images_explicit_blobs) simp_all
  with h have "process_response False output_path r1 = process_response False output_path r2"
    by (simp add: process_response_parts)
  then show "generate_image service1 prompt api_key False output_path model w =
             generate_image service2 prompt api_key False output_path model w"
    by (simp add: generate_image_responds [of service1, OF assms(1)]
        generate_image_responds [of service2, OF assms(2)])
next
  assume h: "first_parts r1 = Some ps1 \<and> first_parts r2 = Some ps2 \<and>
    indexed_blobs 0 ps1 = indexed_blobs 0 ps2"
  then have "save_images output_path 0 ps1 = save_images output_path 0 ps2"
    by (simp add: save_images_indexed)
  with h have "process_response False output_path r1 = process_response False output_path r2"
    by (simp add: process_response_parts)
  then show "generate_image service1 prompt api_key False output_path model w =
             generate_image service2 prompt api_key False output_path model w"
    by (simp add: generate_image_responds [of service1, OF assms(1)]
        generate_image_responds [of service2, OF assms(2)])
next
  assume "without_text r1 = without_text r2"
  then have "process_response False output_path r1 = process_response False output_path r2"
    using process_response_without_text [of output_path r1]
      process_response_without_text [of output_path r2] by simp
  then show "generate_image service1 prompt api_key False output_path model w =
             generate_image service2 prompt api_key False output_path model w"
    by (simp add: generate_image_responds [of service1, OF assms(1)]
        generate_image_responds [of service2, OF assms(2)])
next
  assume h: "first_parts r1 = Some ps1 \<and> first_parts r2 = Some ps2 \<and> blobs ps1 = blobs ps2 \<and>
    save_images output_path 0 ps1 0 w = (Inr n1, w1, es1) \<and>
    save_images output_path 0 ps2 0 w = (Inr n2, w2, es2)"
  then have l1: "save_images output_path 0 ps1 0 w = (Inr n1, w1, es1)"
    and l2: "save_images output_path 0 ps2 0 w = (Inr n2, w2, es2)"
    and b: "blobs ps1 = blobs ps2"
    by simp_all
  from save_images_count [OF l1] save_images_count [OF l2] b show n: "n1 = n2"
    by (simp add: image_count_blobs)
  from save_images_written [OF l1] save_images_written [OF l2] b
  show "written es1 = written es2"
    by (simp add: payloads_blobs)
  from h l1 l2 n
  show "fst (generate_image service1 prompt api_key False output_path model w) =
        fst (generate_image service2 prompt api_key False output_path model w)"
    by (simp add: generate_image_responds [of service1, OF assms(1)]
        generate_image_responds [of service2, OF assms(2)] process_response_parts
        bind_run_def emit_def ret_def)
qed

theorem text_parts_ignored_without_flag_witness:
  "generate_image (answering (one_candidate image_only)) (lit ''a cat'') (lit ''key'') False
     (Some (lit ''custom.png'')) (lit ''m'') fresh_world =
   generate_image (answering (one_candidate text_then_image)) (lit ''a cat'') (lit ''key'') False
     (Some (lit ''custom.png'')) (lit ''m'') fresh_world \<and>
   generate_image (answering (one_candidate text_then_image)) (lit ''a cat'') (lit ''key'') False
     (Some (lit ''custom.png'')) (lit ''m'') fresh_world =
     (True,
      fresh_world\<lparr>fs := [[lit ''work''] \<mapsto> Dir, [lit ''work'', lit ''custom.png''] \<mapsto> File [7]]\<rparr>,
      banner (lit ''m'') (lit ''a cat'') False @
      CallService (lit ''key'') (the_request (lit ''m'') (lit ''a cat'') False) #
      save_events (Path (lit ''custom.png'')) [7] @ [Print (Success (Suc 0))])"
proof -
  have 1: "first_parts (one_candidate image_only) = Some image_only"
    and 2: "first_parts (one_candidate text_then_image) = Some text_then_image"
    by (simp_all add: first_parts_def one_candidate_def)
  have 3: "blobs image_only = blobs text_then_image"
    by (simp add: blobs_def List.map_filter_def image_only_def text_then_image_def
        image_part_def text_part_def)
  have 4: "truthy (Some (lit ''custom.png''))"
    by (simp add: lit_def)
  have 5: "generate_image (answering (one_candidate image_only)) (lit ''a cat'') (lit ''key'')
     False (Some (lit ''custom.png'')) (lit ''m'') fresh_world =
     (True,
      fresh_world\<lparr>fs := [[lit ''work''] \<mapsto> Dir, [lit ''work'', lit ''custom.png''] \<mapsto> File [7]]\<rparr>,
      banner (lit ''m'') (lit ''a cat'') False @
      CallService (lit ''key'') (the_request (lit ''m'') (lit ''a cat'') False) #
      save_events (Path (lit ''custom.png'')) [7] @ [Print (Success (Suc 0))])"
    unfolding Path_custom
    by (simp add: eval_run eval_examples image_only_def banner_def the_request_def
        save_events_def mkdir_fs.simps)
  from text_parts_ignored_without_flag
      [of "answering (one_candidate image_only)" "lit ''key''" "lit ''m''" "lit ''a cat''"
        "one_candidate image_only" "answering (one_candidate text_then_image)"
        "one_candidate text_then_image" "Some (lit ''custom.png'')" fresh_world
        image_only text_then_image] 1 2 3 4
  have "generate_image (answering (one_candidate image_only)) (lit ''a cat'') (lit ''key'') False
     (Some (lit ''custom.png'')) (lit ''m'') fresh_world =
   generate_image (answering (one_candidate text_then_image)) (lit ''a cat'') (lit ''key'') False
     (Some (lit ''custom.png'')) (lit ''m'') fresh_world"
    by (simp add: answering_def)
  with 5 show ?thesis by simp
qed

text \<open>
  With the flag unset and no explicit output path, a response with one image part and the
  response with a text part before it leave different files: the text part counts in the
  index of the default name. When a directory stands at the name with index 0, the first
  run fails and the second succeeds.
\<close>

theorem text_part_shifts_name_counterexample:
  "fst (snd (generate_image (answering (one_candidate image_only)) (lit ''a cat'')
       (lit ''key'') False None (lit ''m'') fresh_world)) =
     fresh_world\<lparr>fs := with_assets(in_assets (lit ''gemini-20240102-120000-0.png'') \<mapsto> File [7]),
       ticks := Suc 0\<rparr> \<and>
   fst (snd (generate_image (answering (one_candidate text_then_image)) (lit ''a cat'')
       (lit ''key'') False None (lit ''m'') fresh_world)) =
     fresh_world\<lparr>fs := with_assets(in_assets (lit ''gemini-20240102-120000-1.png'') \<mapsto> File [7]),
       ticks := Suc 0\<rparr> \<and>
   fs (fst (snd (generate_image (answering (one_candidate image_only)) (lit ''a cat'')
       (lit ''key'') False None (lit ''m'') fresh_world)))
     (in_assets (lit ''gemini-20240102-120000-0.png'')) = Some (File [7]) \<and>
   fs (fst (snd (generate_image (answering (one_candidate text_then_image)) (lit ''a cat'')
       (lit ''key'') False None (lit ''m'') fresh_world)))
     (in_assets (lit ''gemini-20240102-120000-0.png'')) = None \<and>
   fst (generate_image (answering (one_candidate image_only)) (lit ''a cat'')
       (lit ''key'') False None (lit ''m'') occupied_world) = False \<and>
   fst (generate_image (answering (one_candidate text_then_image)) (lit ''a cat'')
       (lit ''key'') False None (lit ''m'') occupied_world) = True"
  by (simp add: eval_run eval_examples image_only_def text_then_image_def occupied_world_def
      str_nat.simps mkdir_fs.simps)

end
